theory Spec2Isabelle
  imports Main "HOL-Library.Sublist"
begin

section \<open>Values, errors and the build context\<close>

text \<open>
  The module installer of \<^verbatim>\<open>packages/kit/src/module/install.ts\<close> handles untyped
  JavaScript values: whatever a module loader hands back, whatever \<^verbatim>\<open>JSON.parse\<close>
  produces, whatever a module's setup function returns. Plain data is a \<open>jsval\<close>;
  an object is an association list in key order.
\<close>

datatype jsval =
    JUndefined
  | JNull
  | JBool bool
  | JNum int
  | JStr string
  | JArr "jsval list"
  | JObj "(string \<times> jsval) list"

text \<open>
  Errors are values. \<open>NotAFunction v\<close> is the
  \<^verbatim>\<open>TypeError('Nuxt module should be a function: ' + nuxtModule)\<close> of
  \<open>loadNuxtModuleInstance\<close>, carrying the offending value; \<open>NullishAccess\<close> is the
  TypeError of a property read on \<^verbatim>\<open>null\<close> or \<^verbatim>\<open>undefined\<close>; \<open>Thrown msg\<close> is
  any error raised by a collaborator (resolver, loaders, file system, JSON parser,
  the module itself).
\<close>

datatype error = NotAFunction jsval | NullishAccess | Thrown string

fun truthy :: "jsval \<Rightarrow> bool" where
  "truthy JUndefined = False"
| "truthy JNull = False"
| "truthy (JBool b) = b"
| "truthy (JNum n) = (n \<noteq> 0)"
| "truthy (JStr s) = (s \<noteq> [])"
| "truthy (JArr _) = True"
| "truthy (JObj _) = True"

fun nullish :: "jsval \<Rightarrow> bool" where
  "nullish JUndefined = True"
| "nullish JNull = True"
| "nullish _ = False"

text \<open>The operator \<^verbatim>\<open>a ?? b\<close> on plain values.\<close>

definition coalesce :: "jsval \<Rightarrow> jsval \<Rightarrow> jsval" where
  "coalesce a b = (if nullish a then b else a)"

text \<open>
  A property read \<^verbatim>\<open>v.k\<close>: a TypeError on a nullish value, the stored value on an
  object that has the key, \<^verbatim>\<open>undefined\<close> everywhere else.
\<close>

definition get_prop :: "jsval \<Rightarrow> string \<Rightarrow> error + jsval" where
  "get_prop v k =
     (if nullish v then Inl NullishAccess
      else case v of
             JObj kvs \<Rightarrow> (case map_of kvs k of Some x \<Rightarrow> Inr x | None \<Rightarrow> Inr JUndefined)
           | _ \<Rightarrow> Inr JUndefined)"

text \<open>A configuration layer: \<^verbatim>\<open>l.config.srcDir\<close>, \<^verbatim>\<open>l.cwd\<close>, \<^verbatim>\<open>l.config?.dir?.modules\<close>.\<close>

record layer =
  srcDir :: "string option"
  cwd :: string
  dirModules :: "string option"

text \<open>An entry of \<^verbatim>\<open>nuxt.options._installedModules\<close>; \<open>None\<close> is \<^verbatim>\<open>undefined\<close>.\<close>

record installed_module =
  meta :: jsval
  timings :: jsval
  entryPath :: "string option"

text \<open>
  The part of the Nuxt instance the installer reads and writes:
  \<^verbatim>\<open>options._layers\<close>, \<^verbatim>\<open>options.build.transpile\<close>, \<^verbatim>\<open>options.modulesDir\<close> and
  \<^verbatim>\<open>options._installedModules\<close> (which may be unset).
\<close>

record nuxt =
  layers :: "layer list"
  transpile :: "string list"
  modulesDir :: "string list"
  installedModules :: "installed_module list option"

text \<open>
  The receiver of the module call: \<^verbatim>\<open>nuxt.moduleContainer\<close> under Nuxt 2, none
  otherwise.
\<close>

datatype receiver = ModuleContainer | NoReceiver

text \<open>
  A Nuxt module is a function \<^verbatim>\<open>(inlineOptions, nuxt) => result\<close> that may mutate
  the Nuxt instance and may throw, with an optional \<^verbatim>\<open>getMeta()\<close>. The call returns
  the instance as the module left it, together with the value or the error.
\<close>

record nuxt_module =
  call :: "receiver \<Rightarrow> jsval \<Rightarrow> nuxt \<Rightarrow> nuxt \<times> (error + jsval)"
  getMeta :: "(error + jsval) option"

text \<open>What the variable \<^verbatim>\<open>nuxtModule\<close> can hold at run time: a function or plain data.\<close>

datatype modval = MFun nuxt_module | MVal jsval

text \<open>The declared type \<^verbatim>\<open>string | NuxtModule\<close> of the reference to install.\<close>

datatype module_ref = Named string | Callable nuxt_module

fun m_nullish :: "modval \<Rightarrow> bool" where
  "m_nullish (MFun _) = False"
| "m_nullish (MVal v) = nullish v"

section \<open>Collaborators\<close>

text \<open>
  Everything imported by \<^verbatim>\<open>install.ts\<close> from other files or packages is a parameter:
  the resolver (\<^verbatim>\<open>resolvePath\<close>, \<^verbatim>\<open>resolveAlias\<close>), the two loaders (\<^verbatim>\<open>importModule\<close>,
  \<^verbatim>\<open>requireModule\<close>, both given \<^verbatim>\<open>nuxt.options.modulesDir\<close>), the file system
  (\<^verbatim>\<open>existsSync\<close>, \<^verbatim>\<open>fsp.readFile\<close>, \<^verbatim>\<open>lstatSync\<close>), \<^verbatim>\<open>JSON.parse\<close>, the path
  functions of \<^verbatim>\<open>pathe\<close> and \<^verbatim>\<open>isNuxt2()\<close>. A collaborator that can throw or reject
  returns a sum.
\<close>

datatype file_kind = RegularFile | Directory | SymbolicLink | OtherKind

fun isFile :: "file_kind \<Rightarrow> bool" where
  "isFile RegularFile = True"
| "isFile _ = False"

record env =
  resolvePath :: "string \<Rightarrow> error + string"
  resolveAlias :: "string \<Rightarrow> error + string"
  importModule :: "string \<Rightarrow> string list \<Rightarrow> error + modval"
  requireModule :: "string \<Rightarrow> string list \<Rightarrow> error + modval"
  existsSync :: "string \<Rightarrow> bool"
  readFile :: "string \<Rightarrow> error + string"
  lstatSync :: "string \<Rightarrow> error + file_kind"
  JSON_parse :: "string \<Rightarrow> error + jsval"
  isAbsolute :: "string \<Rightarrow> bool"
  dirname :: "string \<Rightarrow> string"
  join :: "string \<Rightarrow> string \<Rightarrow> string"
  resolve :: "string \<Rightarrow> string \<Rightarrow> string"
  isNuxt2 :: bool

section \<open>Directory normalisation\<close>

text \<open>
  \<^verbatim>\<open>getDirectory\<close>: the conditional expression runs inside \<^verbatim>\<open>try\<close>; \<^verbatim>\<open>lstatSync\<close> is
  only called when \<^verbatim>\<open>isAbsolute(p)\<close> holds, and whatever it throws is caught by the
  empty \<^verbatim>\<open>catch\<close>, after which \<^verbatim>\<open>p\<close> is returned.
\<close>

definition getDirectory_try :: "env \<Rightarrow> string \<Rightarrow> error + string" where
  "getDirectory_try E p =
     (if isAbsolute E p then
        (case lstatSync E p of
           Inl e \<Rightarrow> Inl e
         | Inr st \<Rightarrow> Inr (if isFile st then dirname E p else p))
      else Inr p)"

definition getDirectory :: "env \<Rightarrow> string \<Rightarrow> string" where
  "getDirectory E p = (case getDirectory_try E p of Inr d \<Rightarrow> d | Inl _ \<Rightarrow> p)"

text \<open>
  \<^verbatim>\<open>String.prototype.split\<close> with a string separator: scan from the left, cut at
  each occurrence found, resume after it. (With the empty separator JavaScript cuts
  between all characters.)
\<close>

function split_from :: "string \<Rightarrow> string \<Rightarrow> string \<Rightarrow> string list" where
  "split_from sep acc [] = [rev acc]"
| "split_from sep acc (c # cs) =
     (if sep \<noteq> [] \<and> prefix sep (c # cs)
      then rev acc # split_from sep [] (drop (length sep) (c # cs))
      else split_from sep (c # acc) cs)"
  by pat_completeness auto
termination
  by (relation "measure (\<lambda>(sep, acc, s). length s)") auto

definition str_split :: "string \<Rightarrow> string \<Rightarrow> string list" where
  "str_split s sep = (if sep = [] then map (\<lambda>c. [c]) s else split_from sep [] s)"

text \<open>\<^verbatim>\<open>Array.prototype.pop\<close>: the last element, \<^verbatim>\<open>undefined\<close> on an empty array.\<close>

definition pop :: "'a list \<Rightarrow> 'a option" where
  "pop xs = (if xs = [] then None else Some (last xs))"

text \<open>
  \<^verbatim>\<open>normalizeModuleTranspilePath\<close>. The source casts the popped value to a string;
  \<open>str_split\<close> with a non-empty separator never yields an empty array
  (\<open>split_from_nonempty\<close> below), so the fallback is never taken.
\<close>

definition normalizeModuleTranspilePath :: "env \<Rightarrow> string \<Rightarrow> string" where
  "normalizeModuleTranspilePath E p =
     (case pop (str_split (getDirectory E p) ''node_modules/'') of
        Some s \<Rightarrow> s
      | None \<Rightarrow> [])"

section \<open>Loading a module instance\<close>

text \<open>
  The calls \<open>loadNuxtModuleInstance\<close> makes to its collaborators, in the order it
  makes them. \<open>ELogError v e\<close> is the call
  \<^verbatim>\<open>logger.error(`Error while requiring module \`${nuxtModule}\`: ${error}`)\<close>
  with the two interpolated values.
\<close>

datatype event =
    EResolvePath string
  | EImportModule string
  | ERequireModule string
  | EExistsSync string
  | EReadFile string
  | ELogError jsval error

text \<open>
  The expression
  \<^verbatim>\<open>await importModule(src, modulesDir).catch(() => null) ?? requireModule(src, { paths: modulesDir })\<close>:
  a rejected import becomes \<^verbatim>\<open>null\<close>, and \<^verbatim>\<open>??\<close> evaluates its right operand exactly
  when the left one is \<^verbatim>\<open>null\<close> or \<^verbatim>\<open>undefined\<close>. (\<^verbatim>\<open>importModule\<close> is asynchronous:
  it fails by rejecting.)
\<close>

definition loadCandidate :: "env \<Rightarrow> string list \<Rightarrow> string \<Rightarrow> event list \<times> (error + modval)" where
  "loadCandidate E mdirs src =
     (let imported = (case importModule E src mdirs of Inl _ \<Rightarrow> MVal JNull | Inr v \<Rightarrow> v)
      in if m_nullish imported
         then ([EImportModule src, ERequireModule src], requireModule E src mdirs)
         else ([EImportModule src], Inr imported))"

text \<open>
  The three variables the candidate loop changes: \<^verbatim>\<open>nuxtModule\<close>,
  \<^verbatim>\<open>buildTimeModuleMeta\<close> and \<^verbatim>\<open>error\<close> (\<open>None\<close> while still \<^verbatim>\<open>undefined\<close>).
\<close>

record load_state =
  nuxtModule :: modval
  buildTimeModuleMeta :: jsval
  lastError :: "error option"

text \<open>
  The body of the \<^verbatim>\<open>try\<close> block for one resolved path. The result says whether
  the block ran to its \<^verbatim>\<open>break\<close> (\<open>True\<close>) or ended in the \<^verbatim>\<open>catch\<close> clause
  (\<open>False\<close>, with \<^verbatim>\<open>error\<close> set). The assignment to \<^verbatim>\<open>nuxtModule\<close> happens
  before the sidecar \<^verbatim>\<open>module.json\<close> is looked at, and the assignment to
  \<^verbatim>\<open>buildTimeModuleMeta\<close> only after \<^verbatim>\<open>JSON.parse\<close> has returned.
\<close>

definition tryCandidate :: "env \<Rightarrow> string list \<Rightarrow> string \<Rightarrow> load_state \<Rightarrow> event list \<times> load_state \<times> bool" where
  "tryCandidate E mdirs src st =
     (case loadCandidate E mdirs src of
        (evs, Inl e) \<Rightarrow> (evs, st\<lparr>lastError := Some e\<rparr>, False)
      | (evs, Inr v) \<Rightarrow>
          (let st1 = st\<lparr>nuxtModule := v\<rparr>;
               moduleMetadataPath = join E (dirname E src) ''module.json''
           in if existsSync E moduleMetadataPath then
                (case readFile E moduleMetadataPath of
                   Inl e \<Rightarrow>
                     (evs @ [EExistsSync moduleMetadataPath, EReadFile moduleMetadataPath],
                      st1\<lparr>lastError := Some e\<rparr>, False)
                 | Inr txt \<Rightarrow>
                     (case JSON_parse E txt of
                        Inl e \<Rightarrow>
                          (evs @ [EExistsSync moduleMetadataPath, EReadFile moduleMetadataPath],
                           st1\<lparr>lastError := Some e\<rparr>, False)
                      | Inr j \<Rightarrow>
                          (evs @ [EExistsSync moduleMetadataPath, EReadFile moduleMetadataPath],
                           st1\<lparr>buildTimeModuleMeta := j\<rparr>, True)))
              else (evs @ [EExistsSync moduleMetadataPath], st1, True)))"

text \<open>
  The loop \<^verbatim>\<open>for (const path of paths)\<close>. \<^verbatim>\<open>resolvePath\<close> is awaited before the
  \<^verbatim>\<open>try\<close> block, so its rejection leaves the loop and the function (\<open>Inl\<close>).
\<close>

fun tryCandidates :: "env \<Rightarrow> string list \<Rightarrow> string list \<Rightarrow> load_state \<Rightarrow> event list \<times> (error + load_state)" where
  "tryCandidates E mdirs [] st = ([], Inr st)"
| "tryCandidates E mdirs (path # rest) st =
     (case resolvePath E path of
        Inl e \<Rightarrow> ([EResolvePath path], Inl e)
      | Inr src \<Rightarrow>
          (case tryCandidate E mdirs src st of
             (evs, st', True) \<Rightarrow> (EResolvePath path # evs, Inr st')
           | (evs, st', False) \<Rightarrow>
               (case tryCandidates E mdirs rest st' of
                  (evs', r) \<Rightarrow> (EResolvePath path # evs @ evs', r))))"

text \<open>
  The final check \<^verbatim>\<open>typeof nuxtModule !== 'function'\<close> and the returned pair.
\<close>

fun requireFunction :: "modval \<Rightarrow> jsval \<Rightarrow> error + nuxt_module \<times> jsval" where
  "requireFunction (MFun f) btm = Inr (f, btm)"
| "requireFunction (MVal v) btm = Inl (NotAFunction v)"

text \<open>
  The code after the loop: \<^verbatim>\<open>if (!nuxtModule && error) { logger.error(...); throw error }\<close>,
  then the function check. A function is truthy, so the guard can only hold for plain
  data; a caught error is taken to be a truthy value.
\<close>

definition afterLoop :: "load_state \<Rightarrow> event list \<times> (error + nuxt_module \<times> jsval)" where
  "afterLoop st =
     (case (nuxtModule st, lastError st) of
        (MVal v, Some e) \<Rightarrow>
          (if \<not> truthy v then ([ELogError v e], Inl e)
           else ([], requireFunction (nuxtModule st) (buildTimeModuleMeta st)))
      | _ \<Rightarrow> ([], requireFunction (nuxtModule st) (buildTimeModuleMeta st)))"

definition candidatePaths :: "env \<Rightarrow> string \<Rightarrow> string list" where
  "candidatePaths E s = [join E s ''nuxt'', join E s ''module'', s]"

fun loadNuxtModuleInstance :: "env \<Rightarrow> module_ref \<Rightarrow> nuxt \<Rightarrow> event list \<times> (error + nuxt_module \<times> jsval)" where
  "loadNuxtModuleInstance E (Named s) nx =
     (case tryCandidates E (modulesDir nx) (candidatePaths E s)
             \<lparr>nuxtModule = MVal (JStr s), buildTimeModuleMeta = JObj [], lastError = None\<rparr> of
        (evs, Inl e) \<Rightarrow> (evs, Inl e)
      | (evs, Inr st) \<Rightarrow> (case afterLoop st of (evs', r) \<Rightarrow> (evs @ evs', r)))"
| "loadNuxtModuleInstance E (Callable f) nx = ([], requireFunction (MFun f) (JObj []))"

section \<open>Installing a module\<close>

text \<open>
  \<^verbatim>\<open>NODE_MODULES_RE = /[/\\]node_modules[/\\]/\<close>: the text \<^verbatim>\<open>node_modules\<close> between
  two separators, anywhere in the string.
\<close>

definition is_sep :: "char \<Rightarrow> bool" where
  "is_sep c = (c = CHR ''/'' \<or> c = CHR 0x5C)"

fun NODE_MODULES_RE_test :: "string \<Rightarrow> bool" where
  "NODE_MODULES_RE_test [] = False"
| "NODE_MODULES_RE_test (c # cs) =
     ((is_sep c \<and> prefix ''node_modules'' cs \<and>
       (case drop 12 cs of [] \<Rightarrow> False | d # _ \<Rightarrow> is_sep d))
      \<or> NODE_MODULES_RE_test cs)"

text \<open>\<^verbatim>\<open>l.config.srcDir || l.cwd\<close> and \<^verbatim>\<open>l.config?.dir?.modules || 'modules'\<close>.\<close>

definition layerSrcDir :: "layer \<Rightarrow> string" where
  "layerSrcDir l = (case srcDir l of None \<Rightarrow> cwd l | Some d \<Rightarrow> if d \<noteq> [] then d else cwd l)"

definition layerModules :: "layer \<Rightarrow> string" where
  "layerModules l =
     (case dirModules l of None \<Rightarrow> ''modules'' | Some d \<Rightarrow> if d \<noteq> [] then d else ''modules'')"

text \<open>The set \<^verbatim>\<open>localLayerModuleDirs\<close>, as the list of its insertions.\<close>

definition localLayerModuleDirs :: "env \<Rightarrow> layer list \<Rightarrow> string list" where
  "localLayerModuleDirs E ls =
     map (\<lambda>l. resolve E (layerSrcDir l) (layerModules l))
       (filter (\<lambda>l. \<not> NODE_MODULES_RE_test (layerSrcDir l)) ls)"

text \<open>
  Modelled from the spec: \<^verbatim>\<open>defu\<close>, the merge function of the npm package of that
  name, which \<^verbatim>\<open>install.ts\<close> imports and whose source is not part of the repository.
  The spec says of \<^verbatim>\<open>defu(runtime, buildTime)\<close>: the first argument's values win on
  overlapping keys, the second argument's values fill the keys the first one lacks,
  and an absent first argument contributes nothing. The result lists the keys of the
  second argument first, then the new keys of the first.
\<close>

definition obj_entries :: "jsval \<Rightarrow> (string \<times> jsval) list" where
  "obj_entries v = (case v of JObj kvs \<Rightarrow> kvs | _ \<Rightarrow> [])"

definition defu :: "jsval \<Rightarrow> jsval \<Rightarrow> jsval" where
  "defu a defaults =
     (let ea = obj_entries a; ed = obj_entries defaults
      in JObj (map (\<lambda>(k, v). (k, case map_of ea k of Some v' \<Rightarrow> v' | None \<Rightarrow> v)) ed
               @ filter (\<lambda>(k, v). map_of ed k = None) ea))"

text \<open>\<^verbatim>\<open>await nuxtModule.getMeta?.()\<close>: \<^verbatim>\<open>undefined\<close> when the module has no \<^verbatim>\<open>getMeta\<close>.\<close>

definition callGetMeta :: "nuxt_module \<Rightarrow> error + jsval" where
  "callGetMeta f = (case getMeta f of None \<Rightarrow> Inr JUndefined | Some r \<Rightarrow> r)"

text \<open>
  The bookkeeping for a string reference (the block under
  \<^verbatim>\<open>typeof moduleToInstall === 'string'\<close>): push to \<^verbatim>\<open>build.transpile\<close>, then
  perhaps to \<^verbatim>\<open>modulesDir\<close>.
\<close>

fun trackDirectories :: "env \<Rightarrow> module_ref \<Rightarrow> string list \<Rightarrow> nuxt \<Rightarrow> nuxt" where
  "trackDirectories E (Named s) dirs nx =
     (let nx1 = nx\<lparr>transpile := transpile nx @ [normalizeModuleTranspilePath E s]\<rparr>;
          directory = getDirectory E s
      in if directory \<noteq> s \<and> directory \<notin> set dirs
         then nx1\<lparr>modulesDir := modulesDir nx1 @ [directory]\<rparr>
         else nx1)"
| "trackDirectories E (Callable f) dirs nx = nx"

text \<open>\<^verbatim>\<open>typeof moduleToInstall === 'string' ? resolveAlias(moduleToInstall) : undefined\<close>.\<close>

fun entryPathOf :: "env \<Rightarrow> module_ref \<Rightarrow> error + string option" where
  "entryPathOf E (Named s) = (case resolveAlias E s of Inl e \<Rightarrow> Inl e | Inr p \<Rightarrow> Inr (Some p))"
| "entryPathOf E (Callable f) = Inr None"

text \<open>\<^verbatim>\<open>nuxt.options._installedModules ||= []\<close>; an array, even an empty one, is truthy.\<close>

definition ledger :: "nuxt \<Rightarrow> installed_module list" where
  "ledger nx = (case installedModules nx of None \<Rightarrow> [] | Some ms \<Rightarrow> ms)"

text \<open>
  Everything \<open>installModule\<close> does once the setup result is known not to be
  \<^verbatim>\<open>false\<close>. The fields of the new record are evaluated in source order, after the
  ledger has been initialised and before the push; an error in one of them leaves
  the earlier mutations in place.
\<close>

definition recordInstall ::
  "env \<Rightarrow> module_ref \<Rightarrow> nuxt_module \<Rightarrow> jsval \<Rightarrow> string list \<Rightarrow> jsval \<Rightarrow> nuxt \<Rightarrow> nuxt \<times> (error + unit)" where
  "recordInstall E moduleToInstall f btm dirs result nx =
     (let nx2 = trackDirectories E moduleToInstall dirs nx;
          nx3 = nx2\<lparr>installedModules := Some (ledger nx2)\<rparr>
      in case callGetMeta f of
           Inl e \<Rightarrow> (nx3, Inl e)
         | Inr gm \<Rightarrow>
             (case get_prop result ''timings'' of
                Inl e \<Rightarrow> (nx3, Inl e)
              | Inr t \<Rightarrow>
                  (case entryPathOf E moduleToInstall of
                     Inl e \<Rightarrow> (nx3, Inl e)
                   | Inr ep \<Rightarrow>
                       (nx3\<lparr>installedModules :=
                              Some (ledger nx3 @ [\<lparr>meta = defu gm btm, timings = t, entryPath = ep\<rparr>])\<rparr>,
                        Inr ()))))"

text \<open>
  \<open>installModule\<close>. The local layer directories are computed from the instance as
  it is before the module runs; the module is called with the module container as
  receiver under Nuxt 2 and without receiver otherwise; \<^verbatim>\<open>?? {}\<close> replaces a nullish
  result; the result \<^verbatim>\<open>false\<close> ends the installation.
\<close>

definition installModule :: "env \<Rightarrow> module_ref \<Rightarrow> jsval \<Rightarrow> nuxt \<Rightarrow> nuxt \<times> (error + unit)" where
  "installModule E moduleToInstall inlineOptions nx =
     (case snd (loadNuxtModuleInstance E moduleToInstall nx) of
        Inl e \<Rightarrow> (nx, Inl e)
      | Inr (f, btm) \<Rightarrow>
          (let dirs = localLayerModuleDirs E (layers nx)
           in case call f (if isNuxt2 E then ModuleContainer else NoReceiver) inlineOptions nx of
                (nx1, Inl e) \<Rightarrow> (nx1, Inl e)
              | (nx1, Inr r) \<Rightarrow>
                  (let result = coalesce r (JObj [])
                   in if result = JBool False then (nx1, Inr ())
                      else recordInstall E moduleToInstall f btm dirs result nx1)))"

section \<open>Observations on a run\<close>

text \<open>The candidate paths handed to \<^verbatim>\<open>resolvePath\<close> during a run, in order.\<close>

fun attempted :: "event list \<Rightarrow> string list" where
  "attempted [] = []"
| "attempted (EResolvePath p # evs) = p # attempted evs"
| "attempted (_ # evs) = attempted evs"

text \<open>
  A candidate ends the loop by \<^verbatim>\<open>break\<close> when its path resolves, the load
  expression yields a value, and the sidecar step does not throw: either there is no
  \<^verbatim>\<open>module.json\<close> beside the resolved path, or it is read and parsed.
\<close>

definition sidecarReadable :: "env \<Rightarrow> string \<Rightarrow> bool" where
  "sidecarReadable E src =
     (let moduleMetadataPath = join E (dirname E src) ''module.json''
      in if existsSync E moduleMetadataPath
         then (case readFile E moduleMetadataPath of
                 Inl _ \<Rightarrow> False
               | Inr txt \<Rightarrow> (case JSON_parse E txt of Inl _ \<Rightarrow> False | Inr _ \<Rightarrow> True))
         else True)"

definition candidateBreaks :: "env \<Rightarrow> string list \<Rightarrow> string \<Rightarrow> bool" where
  "candidateBreaks E mdirs path =
     (case resolvePath E path of
        Inl _ \<Rightarrow> False
      | Inr src \<Rightarrow>
          (case snd (loadCandidate E mdirs src) of
             Inl _ \<Rightarrow> False
           | Inr _ \<Rightarrow> sidecarReadable E src))"

text \<open>A candidate whose path \<^verbatim>\<open>resolvePath\<close> rejects.\<close>

definition resolveThrows :: "env \<Rightarrow> string \<Rightarrow> bool" where
  "resolveThrows E path = (case resolvePath E path of Inl _ \<Rightarrow> True | Inr _ \<Rightarrow> False)"

text \<open>
  A candidate that resolves but whose load expression throws: the import is rejected
  or nullish, and \<^verbatim>\<open>requireModule\<close> throws.
\<close>

definition candidateFailsToLoad :: "env \<Rightarrow> string list \<Rightarrow> string \<Rightarrow> bool" where
  "candidateFailsToLoad E mdirs path =
     (case resolvePath E path of
        Inl _ \<Rightarrow> False
      | Inr src \<Rightarrow> (case snd (loadCandidate E mdirs src) of Inl _ \<Rightarrow> True | Inr _ \<Rightarrow> False))"

section \<open>Example environments\<close>

text \<open>
  Concrete collaborators for the examples: paths with \<^verbatim>\<open>/\<close> as the only separator,
  a resolver that hands every path back as it is, and a project in which nothing
  exists and nothing loads. Each example then changes what it needs.
\<close>

definition posix_isAbsolute :: "string \<Rightarrow> bool" where
  "posix_isAbsolute p = (case p of [] \<Rightarrow> False | c # _ \<Rightarrow> c = CHR ''/'')"

definition posix_dirname :: "string \<Rightarrow> string" where
  "posix_dirname p =
     (if CHR ''/'' \<notin> set p then ''.''
      else let d = rev (tl (dropWhile (\<lambda>c. c \<noteq> CHR ''/'') (rev p)))
           in if d = [] then ''/'' else d)"

definition posix_join :: "string \<Rightarrow> string \<Rightarrow> string" where
  "posix_join a b = (if a = [] then b else a @ ''/'' @ b)"

definition posix_resolve :: "string \<Rightarrow> string \<Rightarrow> string" where
  "posix_resolve a b = (if posix_isAbsolute b then b else posix_join a b)"

definition emptyProject :: env where
  "emptyProject =
     \<lparr>resolvePath = Inr,
      resolveAlias = Inr,
      importModule = (\<lambda>src mdirs. Inl (Thrown ''ERR_MODULE_NOT_FOUND'')),
      requireModule = (\<lambda>src mdirs. Inl (Thrown ''MODULE_NOT_FOUND'')),
      existsSync = (\<lambda>p. False),
      readFile = (\<lambda>p. Inl (Thrown ''ENOENT'')),
      lstatSync = (\<lambda>p. Inl (Thrown ''ENOENT'')),
      JSON_parse = (\<lambda>txt. Inl (Thrown ''SyntaxError'')),
      isAbsolute = posix_isAbsolute,
      dirname = posix_dirname,
      join = posix_join,
      resolve = posix_resolve,
      isNuxt2 = False\<rparr>"

definition freshNuxt :: nuxt where
  "freshNuxt =
     \<lparr>layers = [\<lparr>srcDir = Some ''/proj'', cwd = ''/proj'', dirModules = None\<rparr>],
      transpile = [],
      modulesDir = [''/proj/node_modules''],
      installedModules = None\<rparr>"

text \<open>A module whose setup reports a timing and that declares no \<^verbatim>\<open>getMeta\<close>.\<close>

definition timedModule :: nuxt_module where
  "timedModule =
     \<lparr>call = (\<lambda>recv opts nx. (nx, Inr (JObj [(''timings'', JObj [(''setup'', JNum 5)])]))),
      getMeta = None\<rparr>"

text \<open>A module whose setup returns nothing and whose \<^verbatim>\<open>getMeta()\<close> yields \<^verbatim>\<open>{b: 3}\<close>.\<close>

definition metaModule :: nuxt_module where
  "metaModule =
     \<lparr>call = (\<lambda>recv opts nx. (nx, Inr JUndefined)),
      getMeta = Some (Inr (JObj [(''b'', JNum 3)]))\<rparr>"

text \<open>A module whose setup returns \<^verbatim>\<open>false\<close>.\<close>

definition abortingModule :: nuxt_module where
  "abortingModule =
     \<lparr>call = (\<lambda>recv opts nx. (nx, Inr (JBool False))),
      getMeta = Some (Inr (JObj [(''name'', JStr ''aborting'')]))\<rparr>"

text \<open>
  \<^verbatim>\<open>my-mod/nuxt\<close> loads through \<^verbatim>\<open>requireModule\<close>, and the \<^verbatim>\<open>module.json\<close> beside it
  exists but does not parse. Nothing else loads.
\<close>

definition brokenSidecar :: env where
  "brokenSidecar =
     emptyProject
       \<lparr>requireModule := (\<lambda>src mdirs. if src = ''my-mod/nuxt'' then Inr (MFun timedModule)
                                      else Inl (Thrown ''MODULE_NOT_FOUND'')),
        existsSync := (\<lambda>p. p = ''my-mod/module.json''),
        readFile := (\<lambda>p. if p = ''my-mod/module.json'' then Inr ''{'' else Inl (Thrown ''ENOENT''))\<rparr>"

text \<open>
  \<^verbatim>\<open>resolvePath\<close> rejects the first candidate; the second candidate would load.
\<close>

definition resolverRejects :: env where
  "resolverRejects =
     emptyProject
       \<lparr>resolvePath := (\<lambda>p. if p = ''my-mod/nuxt'' then Inl (Thrown ''EACCES'') else Inr p),
        importModule := (\<lambda>src mdirs. if src = ''my-mod/module'' then Inr (MFun timedModule)
                                     else Inl (Thrown ''ERR_MODULE_NOT_FOUND''))\<rparr>"

text \<open>
  The second candidate \<^verbatim>\<open>my-mod/module\<close> loads as an ES module, and the sidecar
  beside it parses to \<^verbatim>\<open>{a: 1, b: 2}\<close>.
\<close>

definition withSidecar :: env where
  "withSidecar =
     emptyProject
       \<lparr>importModule := (\<lambda>src mdirs. if src = ''my-mod/module'' then Inr (MFun metaModule)
                                     else Inl (Thrown ''ERR_MODULE_NOT_FOUND'')),
        existsSync := (\<lambda>p. p = ''my-mod/module.json''),
        readFile := (\<lambda>p. if p = ''my-mod/module.json'' then Inr ''{a:1,b:2}''
                          else Inl (Thrown ''ENOENT'')),
        JSON_parse := (\<lambda>txt. if txt = ''{a:1,b:2}''
                             then Inr (JObj [(''a'', JNum 1), (''b'', JNum 2)])
                             else Inl (Thrown ''SyntaxError''))\<rparr>"

text \<open>
  The import of \<^verbatim>\<open>my-mod/nuxt\<close> resolves to \<^verbatim>\<open>undefined\<close>; \<^verbatim>\<open>requireModule\<close> loads it.
\<close>

definition nullishImport :: env where
  "nullishImport =
     emptyProject
       \<lparr>importModule := (\<lambda>src mdirs. if src = ''my-mod/nuxt'' then Inr (MVal JUndefined)
                                     else Inl (Thrown ''ERR_MODULE_NOT_FOUND'')),
        requireModule := (\<lambda>src mdirs. if src = ''my-mod/nuxt'' then Inr (MFun timedModule)
                                      else Inl (Thrown ''MODULE_NOT_FOUND''))\<rparr>"

text \<open>
  A file system with the regular file \<^verbatim>\<open>/proj/node_modules/foo/index.js\<close> in the
  directory \<^verbatim>\<open>/proj/node_modules/foo\<close>, and nothing else.
\<close>

definition fooPackage :: env where
  "fooPackage =
     emptyProject
       \<lparr>lstatSync := (\<lambda>p. if p = ''/proj/node_modules/foo/index.js'' then Inr RegularFile
                           else if p = ''/proj/node_modules/foo'' then Inr Directory
                           else Inl (Thrown ''ENOENT''))\<rparr>"

text \<open>The first candidate \<^verbatim>\<open>my-mod/nuxt\<close> loads a module whose setup returns \<^verbatim>\<open>false\<close>.\<close>

definition abortingPackage :: env where
  "abortingPackage =
     emptyProject
       \<lparr>importModule := (\<lambda>src mdirs. if src = ''my-mod/nuxt'' then Inr (MFun abortingModule)
                                     else Inl (Thrown ''ERR_MODULE_NOT_FOUND''))\<rparr>"

text \<open>
  Nothing loads, and \<^verbatim>\<open>resolvePath\<close> rejects the second candidate \<^verbatim>\<open>my-mod/module\<close>.
\<close>

definition resolverRejectsSecond :: env where
  "resolverRejectsSecond =
     emptyProject
       \<lparr>resolvePath := (\<lambda>p. if p = ''my-mod/module'' then Inl (Thrown ''EACCES'') else Inr p)\<rparr>"

text \<open>
  The import of \<^verbatim>\<open>my-mod/nuxt\<close> resolves to \<^verbatim>\<open>null\<close>, and \<^verbatim>\<open>requireModule\<close> throws for
  every path.
\<close>

definition nullImportNoLegacy :: env where
  "nullImportNoLegacy =
     emptyProject
       \<lparr>importModule := (\<lambda>src mdirs. if src = ''my-mod/nuxt'' then Inr (MVal JNull)
                                     else Inl (Thrown ''ERR_MODULE_NOT_FOUND''))\<rparr>"

section \<open>Helper lemmas\<close>

subsection \<open>Splitting a string\<close>

lemma split_from_nonempty: "split_from sep acc s \<noteq> []"
  by (induction sep acc s rule: split_from.induct) auto

lemma split_from_no_occurrence:
  "\<not> sublist sep s \<Longrightarrow> split_from sep acc s = [rev acc @ s]"
proof (induction s arbitrary: acc)
  case Nil
  then show ?case by simp
next
  case (Cons c cs)
  then have "\<not> prefix sep (c # cs)" and "\<not> sublist sep cs"
    by (simp_all add: sublist_Cons_right)
  with Cons.IH [of "c # acc"] show ?case by simp
qed

lemma split_from_first_occurrence:
  assumes "sep \<noteq> []" and "sublist sep s"
  shows "\<exists>pre rest. s = pre @ sep @ rest \<and> length rest < length s
           \<and> split_from sep acc s = (rev acc @ pre) # split_from sep [] rest"
  using assms(2)
proof (induction s arbitrary: acc)
  case Nil
  with assms(1) show ?case by simp
next
  case (Cons c cs)
  show ?case
  proof (cases "prefix sep (c # cs)")
    case True
    then obtain rest where r: "c # cs = sep @ rest" by (auto simp: prefix_def)
    then have d: "drop (length sep) (c # cs) = rest" by (metis append_eq_conv_conj)
    have len: "length rest < length (c # cs)"
      using assms(1) by (simp add: r)
    have "split_from sep acc (c # cs) = rev acc # split_from sep [] (drop (length sep) (c # cs))"
      using True assms(1) by simp
    then have sp: "split_from sep acc (c # cs) = (rev acc @ []) # split_from sep [] rest"
      by (simp only: d append_Nil2)
    have "c # cs = [] @ sep @ rest" using r by simp
    with len sp show ?thesis by blast
  next
    case False
    with Cons.prems have "sublist sep cs" by (simp add: sublist_Cons_right)
    from Cons.IH [OF this, of "c # acc"] obtain pre rest where
      "cs = pre @ sep @ rest" "length rest < length cs"
      "split_from sep (c # acc) cs = (rev (c # acc) @ pre) # split_from sep [] rest"
      by blast
    with False show ?thesis
      by (intro exI [of _ "c # pre"] exI [of _ rest]) simp
  qed
qed

lemma split_from_last_piece:
  assumes "sep \<noteq> []"
  shows "(\<not> sublist sep s \<longrightarrow> last (split_from sep [] s) = s)
         \<and> (sublist sep s \<longrightarrow> (\<exists>pre. s = pre @ sep @ last (split_from sep [] s)))
         \<and> \<not> sublist sep (last (split_from sep [] s))"
proof (induction "length s" arbitrary: s rule: less_induct)
  case less
  show ?case
  proof (cases "sublist sep s")
    case False
    then show ?thesis by (simp add: split_from_no_occurrence)
  next
    case True
    from split_from_first_occurrence [OF assms True, of "[]"] obtain pre rest where
      s: "s = pre @ sep @ rest" and len: "length rest < length s"
      and sp: "split_from sep [] s = pre # split_from sep [] rest"
      by auto
    have l: "last (split_from sep [] s) = last (split_from sep [] rest)"
      using sp by (simp add: split_from_nonempty)
    note IH = less [OF len]
    have "\<exists>pre'. s = pre' @ sep @ last (split_from sep [] rest)"
    proof (cases "sublist sep rest")
      case False
      with IH s show ?thesis by auto
    next
      case True
      with IH obtain q where "rest = q @ sep @ last (split_from sep [] rest)" by blast
      with s have "s = (pre @ sep @ q) @ sep @ last (split_from sep [] rest)" by simp
      then show ?thesis by blast
    qed
    with True l IH show ?thesis by simp
  qed
qed

subsection \<open>The candidate loop\<close>

lemma attempted_append: "attempted (xs @ ys) = attempted xs @ attempted ys"
  by (induction xs rule: attempted.induct) simp_all

lemma attempted_loadCandidate: "attempted (fst (loadCandidate E mdirs src)) = []"
  by (simp add: loadCandidate_def Let_def)

lemma attempted_tryCandidate: "attempted (fst (tryCandidate E mdirs src st)) = []"
  using attempted_loadCandidate [of E mdirs src]
  by (auto simp: tryCandidate_def Let_def attempted_append split: prod.splits sum.splits)

lemma attempted_afterLoop: "attempted (fst (afterLoop st)) = []"
  by (simp add: afterLoop_def split: modval.splits option.splits)

lemma attempted_afterLoop_pair: "afterLoop st = (evs, r) \<Longrightarrow> attempted evs = []"
  using attempted_afterLoop [of st] by simp

lemma tryCandidate_breaks:
  "snd (snd (tryCandidate E mdirs src st)) =
     (case snd (loadCandidate E mdirs src) of Inl _ \<Rightarrow> False | Inr _ \<Rightarrow> sidecarReadable E src)"
  by (auto simp: tryCandidate_def sidecarReadable_def Let_def split: prod.splits sum.splits)

lemma tryCandidate_load_failure:
  assumes "loadCandidate E mdirs src = (evs, Inl e)"
  shows "tryCandidate E mdirs src st = (evs, st\<lparr>lastError := Some e\<rparr>, False)"
  using assms by (simp add: tryCandidate_def)

lemma tryCandidates_rejected:
  assumes "resolvePath E path = Inl e"
  shows "tryCandidates E mdirs (path # rest) st = ([EResolvePath path], Inl e)"
  using assms by simp

lemma tryCandidates_break:
  assumes "candidateBreaks E mdirs path"
  shows "\<exists>evs st'. tryCandidates E mdirs (path # rest) st = (EResolvePath path # evs, Inr st')
           \<and> attempted evs = []"
proof -
  from assms obtain src where r: "resolvePath E path = Inr src"
    by (auto simp: candidateBreaks_def split: sum.splits)
  obtain evs st' b where t: "tryCandidate E mdirs src st = (evs, st', b)"
    by (cases "tryCandidate E mdirs src st") auto
  have "b" using assms r tryCandidate_breaks [of E mdirs src st] t
    by (auto simp: candidateBreaks_def split: sum.splits)
  moreover have "attempted evs = []" using attempted_tryCandidate [of E mdirs src st] t by simp
  ultimately show ?thesis using r t by simp
qed

lemma tryCandidates_continue:
  assumes "\<not> candidateBreaks E mdirs path" and "\<not> resolveThrows E path"
  shows "\<exists>evs st'. attempted evs = []
           \<and> tryCandidates E mdirs (path # rest) st =
               (EResolvePath path # evs @ fst (tryCandidates E mdirs rest st'),
                snd (tryCandidates E mdirs rest st'))"
proof -
  from assms(2) obtain src where r: "resolvePath E path = Inr src"
    by (auto simp: resolveThrows_def split: sum.splits)
  obtain evs st' b where t: "tryCandidate E mdirs src st = (evs, st', b)"
    by (cases "tryCandidate E mdirs src st") auto
  have "\<not> b" using assms(1) r tryCandidate_breaks [of E mdirs src st] t
    by (auto simp: candidateBreaks_def split: sum.splits)
  moreover have "attempted evs = []" using attempted_tryCandidate [of E mdirs src st] t by simp
  ultimately show ?thesis using r t
    by (intro exI [of _ evs] exI [of _ st']) (simp split: prod.splits)
qed

lemma attempted_tryCandidates:
  "attempted (fst (tryCandidates E mdirs ps st)) =
     takeWhile (\<lambda>p. \<not> (candidateBreaks E mdirs p \<or> resolveThrows E p)) ps
     @ take 1 (dropWhile (\<lambda>p. \<not> (candidateBreaks E mdirs p \<or> resolveThrows E p)) ps)"
proof (induction ps arbitrary: st)
  case Nil
  then show ?case by simp
next
  case (Cons path rest)
  consider (brk) "candidateBreaks E mdirs path"
    | (rej) "resolveThrows E path"
    | (cont) "\<not> candidateBreaks E mdirs path" "\<not> resolveThrows E path"
    by blast
  then show ?case
  proof cases
    case brk
    from tryCandidates_break [OF brk, of rest st] show ?thesis using brk by auto
  next
    case rej
    then obtain e where "resolvePath E path = Inl e"
      by (auto simp: resolveThrows_def split: sum.splits)
    with rej show ?thesis by simp
  next
    case cont
    from tryCandidates_continue [OF cont, of rest st] obtain evs st' where
      "attempted evs = []"
      "tryCandidates E mdirs (path # rest) st =
         (EResolvePath path # evs @ fst (tryCandidates E mdirs rest st'),
          snd (tryCandidates E mdirs rest st'))"
      by blast
    with cont Cons.IH [of st'] show ?thesis by (simp add: attempted_append)
  qed
qed

lemma loadNuxtModuleInstance_attempted:
  "attempted (fst (loadNuxtModuleInstance E (Named s) nx)) =
     attempted (fst (tryCandidates E (modulesDir nx) (candidatePaths E s)
        \<lparr>nuxtModule = MVal (JStr s), buildTimeModuleMeta = JObj [], lastError = None\<rparr>))"
  by (auto simp: attempted_append split: prod.splits sum.splits dest: attempted_afterLoop_pair)

lemma tryCandidates_all_fail:
  assumes "ps \<noteq> []" and "\<forall>p\<in>set ps. candidateFailsToLoad E mdirs p"
  shows "\<exists>src e. resolvePath E (last ps) = Inr src \<and> snd (loadCandidate E mdirs src) = Inl e
           \<and> snd (tryCandidates E mdirs ps st) = Inr (st\<lparr>lastError := Some e\<rparr>)
           \<and> (\<forall>v e'. ELogError v e' \<notin> set (fst (tryCandidates E mdirs ps st)))"
  using assms
proof (induction ps arbitrary: st)
  case Nil
  then show ?case by simp
next
  case (Cons path rest)
  from Cons.prems(2) obtain src e where
    r: "resolvePath E path = Inr src" and l0: "snd (loadCandidate E mdirs src) = Inl e"
    by (auto simp: candidateFailsToLoad_def split: sum.splits)
  then obtain evs where l: "loadCandidate E mdirs src = (evs, Inl e)"
    by (cases "loadCandidate E mdirs src") auto
  have t: "tryCandidate E mdirs src st = (evs, st\<lparr>lastError := Some e\<rparr>, False)"
    by (rule tryCandidate_load_failure [OF l])
  have nolog: "\<forall>v e'. ELogError v e' \<notin> set evs"
    using l by (auto simp: loadCandidate_def Let_def split: if_splits)
  show ?case
  proof (cases "rest = []")
    case True
    with r l t nolog show ?thesis by simp
  next
    case False
    from Cons.IH [OF False, of "st\<lparr>lastError := Some e\<rparr>"] Cons.prems(2)
    obtain src' e' where
      "resolvePath E (last rest) = Inr src'" "snd (loadCandidate E mdirs src') = Inl e'"
      "snd (tryCandidates E mdirs rest (st\<lparr>lastError := Some e\<rparr>)) = Inr (st\<lparr>lastError := Some e'\<rparr>)"
      "\<forall>v e''. ELogError v e'' \<notin> set (fst (tryCandidates E mdirs rest (st\<lparr>lastError := Some e\<rparr>)))"
      by auto
    with False r t nolog show ?thesis
      by (auto split: prod.splits)
  qed
qed

lemma emptyProject_fails_to_load:
  "candidateFailsToLoad emptyProject mdirs p"
  by (simp add: candidateFailsToLoad_def emptyProject_def loadCandidate_def)

lemma tryCandidates_reach_rejection:
  assumes "\<forall>q\<in>set pre. \<not> candidateBreaks E mdirs q \<and> \<not> resolveThrows E q"
    and "resolvePath E path = Inl e"
  shows "snd (tryCandidates E mdirs (pre @ path # rest) st) = Inl e"
  using assms(1)
proof (induction pre arbitrary: st)
  case Nil
  with assms(2) show ?case by simp
next
  case (Cons q qs)
  then have c: "\<not> candidateBreaks E mdirs q" "\<not> resolveThrows E q" by simp_all
  from tryCandidates_continue [OF c, of "qs @ path # rest" st] obtain st' where
    "snd (tryCandidates E mdirs (q # qs @ path # rest) st)
       = snd (tryCandidates E mdirs (qs @ path # rest) st')"
    by auto
  with Cons show ?case by simp
qed

lemma stops_at_first:
  assumes "\<forall>q\<in>set pre. \<not> stop q" and "stop p"
  shows "takeWhile (\<lambda>q. \<not> stop q) (pre @ p # post)
           @ take 1 (dropWhile (\<lambda>q. \<not> stop q) (pre @ p # post)) = pre @ [p]"
  using assms by (induction pre) simp_all

lemma never_stops:
  assumes "\<forall>q\<in>set ps. \<not> stop q"
  shows "takeWhile (\<lambda>q. \<not> stop q) ps @ take 1 (dropWhile (\<lambda>q. \<not> stop q) ps) = ps"
  using assms by (induction ps) simp_all

subsection \<open>The installer\<close>

lemma get_prop_total: "\<not> nullish v \<Longrightarrow> \<exists>t. get_prop v k = Inr t"
  by (cases v) (auto simp: get_prop_def split: option.splits)

lemma coalesce_not_nullish: "\<not> nullish (coalesce r (JObj []))"
  by (simp add: coalesce_def)

lemma map_of_overridden:
  "map_of (map (\<lambda>(k, v). (k, case m k of Some v' \<Rightarrow> v' | None \<Rightarrow> v)) ed) k =
     (case map_of ed k of None \<Rightarrow> None
      | Some v \<Rightarrow> (case m k of Some v' \<Rightarrow> Some v' | None \<Rightarrow> Some v))"
  by (induction ed) (auto split: option.splits)

lemma map_of_new_keys:
  "map_of (filter (\<lambda>(k, v). m k = None) ea) k = (if m k = None then map_of ea k else None)"
  by (induction ea) auto

lemma defu_lookup:
  "map_of (obj_entries (defu a d)) k =
     (case map_of (obj_entries a) k of Some v \<Rightarrow> Some v | None \<Rightarrow> map_of (obj_entries d) k)"
  by (simp add: defu_def Let_def obj_entries_def map_of_overridden map_of_new_keys
        map_add_def split: option.splits)

lemma defu_empty_defaults: "defu gm (JObj []) = JObj (obj_entries gm)"
  by (simp add: defu_def obj_entries_def)

lemma ledger_after_init [simp]: "ledger (nx\<lparr>installedModules := Some ms\<rparr>) = ms"
  by (simp add: ledger_def)

lemma ledger_trackDirectories [simp]: "ledger (trackDirectories E m dirs nx) = ledger nx"
  by (cases m) (simp_all add: ledger_def Let_def)

lemma recordInstall_ok:
  assumes "recordInstall E m f btm dirs result nx = (nx', Inr ())"
  shows "\<exists>gm t ep. callGetMeta f = Inr gm \<and> get_prop result ''timings'' = Inr t
           \<and> entryPathOf E m = Inr ep
           \<and> installedModules nx' =
               Some (ledger nx @ [\<lparr>meta = defu gm btm, timings = t, entryPath = ep\<rparr>])"
  using assms
  by (auto simp: recordInstall_def Let_def split: sum.splits)

lemma recordInstall_result:
  assumes "callGetMeta f = Inr gm" and "get_prop result ''timings'' = Inr t"
    and "entryPathOf E m = Inr ep"
  shows "recordInstall E m f btm dirs result nx =
           ((trackDirectories E m dirs nx)
              \<lparr>installedModules :=
                 Some (ledger nx @ [\<lparr>meta = defu gm btm, timings = t, entryPath = ep\<rparr>])\<rparr>,
            Inr ())"
  using assms by (simp add: recordInstall_def Let_def)

section \<open>Directory normalisation: the claims\<close>

text \<open>
  Claim C9. For every path \<open>p\<close>, \<open>getDirectory\<close> returns the containing directory
  of \<open>p\<close> when \<open>p\<close> is absolute and \<^verbatim>\<open>lstatSync\<close> reports a regular file, and returns
  \<open>p\<close> unchanged in every other case, in particular when \<^verbatim>\<open>lstatSync\<close> throws
  because the path is missing. \<open>getDirectory\<close> itself is total: the only step that can
  throw is the one inside \<open>getDirectory_try\<close>, whose error it discards.
\<close>

theorem getDirectory_file_or_unchanged:
  "getDirectory E p =
     (if isAbsolute E p \<and> lstatSync E p = Inr RegularFile then dirname E p else p)"
proof (cases "isAbsolute E p")
  case False
  then show ?thesis by (simp add: getDirectory_def getDirectory_try_def)
next
  case True
  show ?thesis
  proof (cases "lstatSync E p")
    case (Inl e)
    with True show ?thesis by (simp add: getDirectory_def getDirectory_try_def)
  next
    case (Inr k)
    with True show ?thesis
      by (cases k) (simp_all add: getDirectory_def getDirectory_try_def)
  qed
qed

text \<open>
  The three examples of the specification, and a relative path: an existing file, an
  existing directory, a missing absolute path (the probe throws \<^verbatim>\<open>ENOENT\<close>).
\<close>

theorem getDirectory_file_or_unchanged_witness:
  "getDirectory fooPackage ''/proj/node_modules/foo/index.js'' = ''/proj/node_modules/foo''
   \<and> getDirectory fooPackage ''/proj/node_modules/foo'' = ''/proj/node_modules/foo''
   \<and> lstatSync fooPackage ''/nonexistent/abs/path'' = Inl (Thrown ''ENOENT'')
   \<and> getDirectory fooPackage ''/nonexistent/abs/path'' = ''/nonexistent/abs/path''
   \<and> getDirectory fooPackage ''foo/index.js'' = ''foo/index.js''"
  using getDirectory_file_or_unchanged [of fooPackage "''/proj/node_modules/foo/index.js''"]
        getDirectory_file_or_unchanged [of fooPackage "''/proj/node_modules/foo''"]
        getDirectory_file_or_unchanged [of fooPackage "''/nonexistent/abs/path''"]
        getDirectory_file_or_unchanged [of fooPackage "''foo/index.js''"]
  by (simp add: fooPackage_def emptyProject_def posix_isAbsolute_def posix_dirname_def)

text \<open>
  Claim C8, as amended. \<open>normalizeModuleTranspilePath p\<close> is the last piece of
  \<open>getDirectory p\<close> cut at the text \<^verbatim>\<open>node_modules/\<close>: when that text does not occur
  in \<open>getDirectory p\<close> the result is \<open>getDirectory p\<close> itself; when it occurs, the
  result is what follows its last occurrence, and so never contains it. The cut is
  made after the directory normalisation, so for the regular file
  \<^verbatim>\<open>/proj/node_modules/foo/index.js\<close> the result is \<^verbatim>\<open>foo\<close>, and it is
  \<^verbatim>\<open>foo/index.js\<close> only when that path is not an existing regular file.
\<close>

theorem transpile_path_after_last_node_modules:
  "(\<not> sublist ''node_modules/'' (getDirectory E p)
      \<longrightarrow> normalizeModuleTranspilePath E p = getDirectory E p)
   \<and> (sublist ''node_modules/'' (getDirectory E p)
      \<longrightarrow> (\<exists>pre. getDirectory E p = pre @ ''node_modules/'' @ normalizeModuleTranspilePath E p))
   \<and> \<not> sublist ''node_modules/'' (normalizeModuleTranspilePath E p)"
proof -
  have "normalizeModuleTranspilePath E p = last (split_from ''node_modules/'' [] (getDirectory E p))"
    by (simp add: normalizeModuleTranspilePath_def str_split_def pop_def split_from_nonempty)
  then show ?thesis
    using split_from_last_piece [of "''node_modules/''" "getDirectory E p"] by simp
qed

theorem transpile_path_after_last_node_modules_witness:
  "getDirectory fooPackage ''/proj/node_modules/foo/index.js'' = ''/proj/node_modules/foo''
   \<and> sublist ''node_modules/'' ''/proj/node_modules/foo''
   \<and> normalizeModuleTranspilePath fooPackage ''/proj/node_modules/foo/index.js'' = ''foo''
   \<and> getDirectory emptyProject ''/proj/node_modules/foo/index.js''
        = ''/proj/node_modules/foo/index.js''
   \<and> normalizeModuleTranspilePath emptyProject ''/proj/node_modules/foo/index.js''
        = ''foo/index.js''
   \<and> \<not> sublist ''node_modules/'' ''./modules/local''
   \<and> normalizeModuleTranspilePath emptyProject ''./modules/local'' = ''./modules/local''"
  using transpile_path_after_last_node_modules [of fooPackage "''/proj/node_modules/foo/index.js''"]
        transpile_path_after_last_node_modules [of emptyProject "''/proj/node_modules/foo/index.js''"]
        transpile_path_after_last_node_modules [of emptyProject "''./modules/local''"]
  by (simp add: normalizeModuleTranspilePath_def str_split_def pop_def getDirectory_def
        getDirectory_try_def fooPackage_def emptyProject_def posix_isAbsolute_def
        posix_dirname_def sublist_Cons_right)

text \<open>
  Claim C8 as stated gives \<^verbatim>\<open>foo/index.js\<close> for \<^verbatim>\<open>/proj/node_modules/foo/index.js\<close>.
  Where that path is an existing regular file, the result is another one.
\<close>

theorem transpile_path_example_counterexample:
  "lstatSync fooPackage ''/proj/node_modules/foo/index.js'' = Inr RegularFile
   \<and> normalizeModuleTranspilePath fooPackage ''/proj/node_modules/foo/index.js'' \<noteq> ''foo/index.js''"
  by (simp add: normalizeModuleTranspilePath_def str_split_def pop_def getDirectory_def
        getDirectory_try_def fooPackage_def emptyProject_def posix_isAbsolute_def
        posix_dirname_def)

section \<open>Loading: the claims\<close>

text \<open>
  Claim C1 says that a string specifier none of whose candidates loads makes
  \<open>loadNuxtModuleInstance\<close> throw the retained error of the last load attempt,
  logged with the specifier. The code has the statement for it,
  \<^verbatim>\<open>if (!nuxtModule && error) { logger.error(...); throw error }\<close>, but does not reach
  it: when the specifier \<open>s\<close> is not empty and each of its three candidates
  resolves and fails to load, the loop ends with \<^verbatim>\<open>nuxtModule\<close> still holding the
  string \<open>s\<close> and \<^verbatim>\<open>error\<close> holding the last load error; a non-empty string is
  truthy, so the guard is false, nothing is logged, the retained error is not
  thrown, and the function check throws
  \<^verbatim>\<open>TypeError('Nuxt module should be a function: ' + s)\<close> instead.
\<close>

theorem exhausted_candidates_raise_type_error:
  assumes "s \<noteq> []"
    and "\<forall>p\<in>set (candidatePaths E s). candidateFailsToLoad E (modulesDir nx) p"
  shows "\<exists>src e. resolvePath E s = Inr src \<and> snd (loadCandidate E (modulesDir nx) src) = Inl e
           \<and> snd (tryCandidates E (modulesDir nx) (candidatePaths E s)
                    \<lparr>nuxtModule = MVal (JStr s), buildTimeModuleMeta = JObj [], lastError = None\<rparr>)
               = Inr \<lparr>nuxtModule = MVal (JStr s), buildTimeModuleMeta = JObj [], lastError = Some e\<rparr>
           \<and> snd (loadNuxtModuleInstance E (Named s) nx) = Inl (NotAFunction (JStr s))
           \<and> (\<forall>v e'. ELogError v e' \<notin> set (fst (loadNuxtModuleInstance E (Named s) nx)))"
proof -
  let ?init = "\<lparr>nuxtModule = MVal (JStr s), buildTimeModuleMeta = JObj [], lastError = None\<rparr>"
  have ne: "candidatePaths E s \<noteq> []" and la: "last (candidatePaths E s) = s"
    by (simp_all add: candidatePaths_def)
  from tryCandidates_all_fail [OF ne assms(2), of ?init] la
  obtain src e where
    r: "resolvePath E s = Inr src" and l: "snd (loadCandidate E (modulesDir nx) src) = Inl e"
    and t: "snd (tryCandidates E (modulesDir nx) (candidatePaths E s) ?init)
              = Inr (?init\<lparr>lastError := Some e\<rparr>)"
    and n: "\<forall>v e'. ELogError v e' \<notin> set (fst (tryCandidates E (modulesDir nx) (candidatePaths E s) ?init))"
    by auto
  have a: "afterLoop (?init\<lparr>lastError := Some e\<rparr>) = ([], Inl (NotAFunction (JStr s)))"
    using assms(1) by (simp add: afterLoop_def)
  obtain evs where p: "tryCandidates E (modulesDir nx) (candidatePaths E s) ?init
                         = (evs, Inr (?init\<lparr>lastError := Some e\<rparr>))"
    using t by (cases "tryCandidates E (modulesDir nx) (candidatePaths E s) ?init") auto
  have "loadNuxtModuleInstance E (Named s) nx = (evs, Inl (NotAFunction (JStr s)))"
    using p a by simp
  with r l t n p show ?thesis by auto
qed

text \<open>
  The specifier \<^verbatim>\<open>my-mod\<close> in a project where nothing loads: the last load error is
  \<^verbatim>\<open>MODULE_NOT_FOUND\<close>, the error thrown is the TypeError.
\<close>

theorem exhausted_candidates_raise_type_error_witness:
  "candidatePaths emptyProject ''my-mod'' = [''my-mod/nuxt'', ''my-mod/module'', ''my-mod'']
   \<and> candidateFailsToLoad emptyProject (modulesDir freshNuxt) ''my-mod/nuxt''
   \<and> candidateFailsToLoad emptyProject (modulesDir freshNuxt) ''my-mod/module''
   \<and> candidateFailsToLoad emptyProject (modulesDir freshNuxt) ''my-mod''
   \<and> snd (loadCandidate emptyProject (modulesDir freshNuxt) ''my-mod'')
       = Inl (Thrown ''MODULE_NOT_FOUND'')
   \<and> loadNuxtModuleInstance emptyProject (Named ''my-mod'') freshNuxt
       = ([EResolvePath ''my-mod/nuxt'', EImportModule ''my-mod/nuxt'',
           ERequireModule ''my-mod/nuxt'',
           EResolvePath ''my-mod/module'', EImportModule ''my-mod/module'',
           ERequireModule ''my-mod/module'',
           EResolvePath ''my-mod'', EImportModule ''my-mod'', ERequireModule ''my-mod''],
          Inl (NotAFunction (JStr ''my-mod'')))"
proof -
  have a: "''my-mod'' \<noteq> []" by simp
  have b: "\<forall>p\<in>set (candidatePaths emptyProject ''my-mod'').
             candidateFailsToLoad emptyProject (modulesDir freshNuxt) p"
    by (simp add: emptyProject_fails_to_load)
  have c: "snd (loadCandidate emptyProject (modulesDir freshNuxt) ''my-mod'')
             = Inl (Thrown ''MODULE_NOT_FOUND'')"
    by (simp add: emptyProject_def loadCandidate_def)
  have d: "candidatePaths emptyProject ''my-mod'' = [''my-mod/nuxt'', ''my-mod/module'', ''my-mod'']"
    by (simp add: candidatePaths_def emptyProject_def posix_join_def)
  have e: "fst (loadNuxtModuleInstance emptyProject (Named ''my-mod'') freshNuxt)
       = [EResolvePath ''my-mod/nuxt'', EImportModule ''my-mod/nuxt'',
           ERequireModule ''my-mod/nuxt'',
           EResolvePath ''my-mod/module'', EImportModule ''my-mod/module'',
           ERequireModule ''my-mod/module'',
           EResolvePath ''my-mod'', EImportModule ''my-mod'', ERequireModule ''my-mod'']"
    by (simp add: emptyProject_def candidatePaths_def tryCandidate_def loadCandidate_def
          afterLoop_def posix_join_def)
  from exhausted_candidates_raise_type_error [OF a b]
  have f: "snd (loadNuxtModuleInstance emptyProject (Named ''my-mod'') freshNuxt)
             = Inl (NotAFunction (JStr ''my-mod''))"
    by blast
  have "loadNuxtModuleInstance emptyProject (Named ''my-mod'') freshNuxt
          = (fst (loadNuxtModuleInstance emptyProject (Named ''my-mod'') freshNuxt),
             snd (loadNuxtModuleInstance emptyProject (Named ''my-mod'') freshNuxt))"
    by (rule prod.collapse [symmetric])
  then have g: "loadNuxtModuleInstance emptyProject (Named ''my-mod'') freshNuxt
       = ([EResolvePath ''my-mod/nuxt'', EImportModule ''my-mod/nuxt'',
           ERequireModule ''my-mod/nuxt'',
           EResolvePath ''my-mod/module'', EImportModule ''my-mod/module'',
           ERequireModule ''my-mod/module'',
           EResolvePath ''my-mod'', EImportModule ''my-mod'', ERequireModule ''my-mod''],
          Inl (NotAFunction (JStr ''my-mod'')))"
    by (simp only: e f)
  from d g c emptyProject_fails_to_load show ?thesis by blast
qed

text \<open>
  Claim C2, as amended. When a candidate loads and the \<^verbatim>\<open>module.json\<close> beside it
  exists but does not parse, the parse error is caught by the loop's
  \<^verbatim>\<open>catch\<close> clause like a load failure: the loaded value stays in \<^verbatim>\<open>nuxtModule\<close>,
  \<^verbatim>\<open>buildTimeModuleMeta\<close> keeps its value, the parse error becomes the retained
  error, and the loop goes on with the next candidate. With a function in
  \<^verbatim>\<open>nuxtModule\<close> the code after the loop returns it and does not throw the retained
  error.
\<close>

theorem sidecar_parse_error_is_caught:
  assumes "resolvePath E path = Inr src"
    and "loadCandidate E mdirs src = (evs, Inr v)"
    and "existsSync E (join E (dirname E src) ''module.json'')"
    and "readFile E (join E (dirname E src) ''module.json'') = Inr txt"
    and "JSON_parse E txt = Inl e"
  shows "tryCandidates E mdirs (path # rest) st =
           (EResolvePath path # evs
              @ [EExistsSync (join E (dirname E src) ''module.json''),
                 EReadFile (join E (dirname E src) ''module.json'')]
              @ fst (tryCandidates E mdirs rest (st\<lparr>nuxtModule := v, lastError := Some e\<rparr>)),
            snd (tryCandidates E mdirs rest (st\<lparr>nuxtModule := v, lastError := Some e\<rparr>)))
         \<and> (\<forall>f. afterLoop (st\<lparr>nuxtModule := MFun f, lastError := Some e\<rparr>)
                  = ([], Inr (f, buildTimeModuleMeta st)))"
proof -
  have "tryCandidate E mdirs src st =
          (evs @ [EExistsSync (join E (dirname E src) ''module.json''),
                  EReadFile (join E (dirname E src) ''module.json'')],
           st\<lparr>nuxtModule := v, lastError := Some e\<rparr>, False)"
    using assms(2-5) by (simp add: tryCandidate_def Let_def)
  then have "tryCandidates E mdirs (path # rest) st =
           (EResolvePath path # evs
              @ [EExistsSync (join E (dirname E src) ''module.json''),
                 EReadFile (join E (dirname E src) ''module.json'')]
              @ fst (tryCandidates E mdirs rest (st\<lparr>nuxtModule := v, lastError := Some e\<rparr>)),
            snd (tryCandidates E mdirs rest (st\<lparr>nuxtModule := v, lastError := Some e\<rparr>)))"
    using assms(1) by (simp split: prod.splits)
  moreover have "\<forall>f. afterLoop (st\<lparr>nuxtModule := MFun f, lastError := Some e\<rparr>)
                  = ([], Inr (f, buildTimeModuleMeta st))"
    by (simp add: afterLoop_def)
  ultimately show ?thesis by blast
qed

theorem sidecar_parse_error_is_caught_witness:
  "resolvePath brokenSidecar ''my-mod/nuxt'' = Inr ''my-mod/nuxt''
   \<and> loadCandidate brokenSidecar [] ''my-mod/nuxt''
       = ([EImportModule ''my-mod/nuxt'', ERequireModule ''my-mod/nuxt''], Inr (MFun timedModule))
   \<and> existsSync brokenSidecar ''my-mod/module.json''
   \<and> readFile brokenSidecar ''my-mod/module.json'' = Inr ''{''
   \<and> JSON_parse brokenSidecar ''{'' = Inl (Thrown ''SyntaxError'')
   \<and> tryCandidates brokenSidecar [] [''my-mod/nuxt'']
        \<lparr>nuxtModule = MVal (JStr ''my-mod''), buildTimeModuleMeta = JObj [], lastError = None\<rparr>
       = ([EResolvePath ''my-mod/nuxt'', EImportModule ''my-mod/nuxt'',
           ERequireModule ''my-mod/nuxt'', EExistsSync ''my-mod/module.json'',
           EReadFile ''my-mod/module.json''],
          Inr \<lparr>nuxtModule = MFun timedModule, buildTimeModuleMeta = JObj [],
               lastError = Some (Thrown ''SyntaxError'')\<rparr>)"
proof -
  have r: "resolvePath brokenSidecar ''my-mod/nuxt'' = Inr ''my-mod/nuxt''"
    by (simp add: brokenSidecar_def emptyProject_def)
  have l: "loadCandidate brokenSidecar [] ''my-mod/nuxt''
       = ([EImportModule ''my-mod/nuxt'', ERequireModule ''my-mod/nuxt''], Inr (MFun timedModule))"
    by (simp add: brokenSidecar_def emptyProject_def loadCandidate_def)
  have p: "join brokenSidecar (dirname brokenSidecar ''my-mod/nuxt'') ''module.json''
             = ''my-mod/module.json''"
    by (simp add: brokenSidecar_def emptyProject_def posix_join_def posix_dirname_def)
  have x: "existsSync brokenSidecar (join brokenSidecar (dirname brokenSidecar ''my-mod/nuxt'') ''module.json'')"
    unfolding p by (simp add: brokenSidecar_def emptyProject_def)
  have f: "readFile brokenSidecar (join brokenSidecar (dirname brokenSidecar ''my-mod/nuxt'') ''module.json'') = Inr ''{''"
    unfolding p by (simp add: brokenSidecar_def emptyProject_def)
  have j: "JSON_parse brokenSidecar ''{'' = Inl (Thrown ''SyntaxError'')"
    by (simp add: brokenSidecar_def emptyProject_def)
  from sidecar_parse_error_is_caught [OF r l x f j, of "[]"
         "\<lparr>nuxtModule = MVal (JStr ''my-mod''), buildTimeModuleMeta = JObj [], lastError = None\<rparr>"]
  show ?thesis using r l x f j unfolding p by simp
qed

text \<open>
  Claim C2 as stated makes the parse error fatal and immediate. Here the first
  candidate loads, its sidecar does not parse, the loop still tries the other two
  candidates, and the function returns the loaded module with no error at all.
\<close>

theorem sidecar_parse_error_counterexample:
  "existsSync brokenSidecar ''my-mod/module.json''
   \<and> readFile brokenSidecar ''my-mod/module.json'' = Inr ''{''
   \<and> JSON_parse brokenSidecar ''{'' = Inl (Thrown ''SyntaxError'')
   \<and> loadNuxtModuleInstance brokenSidecar (Named ''my-mod'') freshNuxt
       = ([EResolvePath ''my-mod/nuxt'', EImportModule ''my-mod/nuxt'',
           ERequireModule ''my-mod/nuxt'', EExistsSync ''my-mod/module.json'',
           EReadFile ''my-mod/module.json'',
           EResolvePath ''my-mod/module'', EImportModule ''my-mod/module'',
           ERequireModule ''my-mod/module'',
           EResolvePath ''my-mod'', EImportModule ''my-mod'', ERequireModule ''my-mod''],
          Inr (timedModule, JObj []))"
  by (simp add: brokenSidecar_def emptyProject_def candidatePaths_def tryCandidate_def
        loadCandidate_def afterLoop_def posix_join_def posix_dirname_def Let_def)

text \<open>
  Claim C3, as amended. \<^verbatim>\<open>resolvePath\<close> is awaited outside the \<^verbatim>\<open>try\<close> block: once
  the loop has advanced past the candidates before it (none of them ended the loop),
  a rejection of \<^verbatim>\<open>resolvePath\<close> for a candidate leaves the loop and
  \<open>loadNuxtModuleInstance\<close> with that error, and no later candidate is tried. Only
  an error thrown inside the \<^verbatim>\<open>try\<close> block disqualifies a candidate and advances
  the loop.
\<close>

theorem resolvePath_rejection_is_fatal:
  assumes "candidatePaths E s = pre @ path # rest"
    and "\<forall>q\<in>set pre. \<not> candidateBreaks E (modulesDir nx) q \<and> \<not> resolveThrows E q"
    and "resolvePath E path = Inl e"
  shows "snd (loadNuxtModuleInstance E (Named s) nx) = Inl e
         \<and> attempted (fst (loadNuxtModuleInstance E (Named s) nx)) = pre @ [path]"
proof -
  let ?init = "\<lparr>nuxtModule = MVal (JStr s), buildTimeModuleMeta = JObj [], lastError = None\<rparr>"
  have "snd (tryCandidates E (modulesDir nx) (candidatePaths E s) ?init) = Inl e"
    unfolding assms(1) by (rule tryCandidates_reach_rejection [OF assms(2,3)])
  then obtain evs where "tryCandidates E (modulesDir nx) (candidatePaths E s) ?init = (evs, Inl e)"
    by (cases "tryCandidates E (modulesDir nx) (candidatePaths E s) ?init") auto
  then have r: "snd (loadNuxtModuleInstance E (Named s) nx) = Inl e"
    by simp
  have "resolveThrows E path" using assms(3) by (simp add: resolveThrows_def)
  then have "attempted (fst (loadNuxtModuleInstance E (Named s) nx)) = pre @ [path]"
    using assms(2)
    unfolding loadNuxtModuleInstance_attempted attempted_tryCandidates assms(1)
    by (intro stops_at_first) auto
  with r show ?thesis by simp
qed

theorem resolvePath_rejection_is_fatal_witness:
  "candidatePaths resolverRejectsSecond ''my-mod'' = [''my-mod/nuxt''] @ ''my-mod/module'' # [''my-mod'']
   \<and> \<not> candidateBreaks resolverRejectsSecond (modulesDir freshNuxt) ''my-mod/nuxt''
   \<and> \<not> resolveThrows resolverRejectsSecond ''my-mod/nuxt''
   \<and> resolvePath resolverRejectsSecond ''my-mod/module'' = Inl (Thrown ''EACCES'')
   \<and> snd (loadNuxtModuleInstance resolverRejectsSecond (Named ''my-mod'') freshNuxt)
       = Inl (Thrown ''EACCES'')
   \<and> attempted (fst (loadNuxtModuleInstance resolverRejectsSecond (Named ''my-mod'') freshNuxt))
       = [''my-mod/nuxt'', ''my-mod/module'']"
proof -
  have a: "candidatePaths resolverRejectsSecond ''my-mod''
             = [''my-mod/nuxt''] @ ''my-mod/module'' # [''my-mod'']"
    by (simp add: candidatePaths_def resolverRejectsSecond_def emptyProject_def posix_join_def)
  have b: "\<not> candidateBreaks resolverRejectsSecond (modulesDir freshNuxt) ''my-mod/nuxt''
           \<and> \<not> resolveThrows resolverRejectsSecond ''my-mod/nuxt''"
    by (simp add: candidateBreaks_def resolveThrows_def resolverRejectsSecond_def
          emptyProject_def loadCandidate_def)
  then have b': "\<forall>q\<in>set [''my-mod/nuxt''].
         \<not> candidateBreaks resolverRejectsSecond (modulesDir freshNuxt) q
         \<and> \<not> resolveThrows resolverRejectsSecond q"
    by simp
  have c: "resolvePath resolverRejectsSecond ''my-mod/module'' = Inl (Thrown ''EACCES'')"
    by (simp add: resolverRejectsSecond_def emptyProject_def)
  from resolvePath_rejection_is_fatal [OF a b' c]
  have "snd (loadNuxtModuleInstance resolverRejectsSecond (Named ''my-mod'') freshNuxt)
          = Inl (Thrown ''EACCES'')
        \<and> attempted (fst (loadNuxtModuleInstance resolverRejectsSecond (Named ''my-mod'') freshNuxt))
          = [''my-mod/nuxt'', ''my-mod/module'']"
    by (simp only: append.simps)
  with a b c show ?thesis by blast
qed

text \<open>
  Claim C3 as stated lets the loop advance past a candidate that \<^verbatim>\<open>resolvePath\<close>
  rejects. Here the first candidate is rejected and the second would load; the
  function ends with the resolver's error after a single call.
\<close>

theorem resolvePath_rejection_counterexample:
  "resolvePath resolverRejects ''my-mod/nuxt'' = Inl (Thrown ''EACCES'')
   \<and> candidateBreaks resolverRejects (modulesDir freshNuxt) ''my-mod/module''
   \<and> loadNuxtModuleInstance resolverRejects (Named ''my-mod'') freshNuxt
       = ([EResolvePath ''my-mod/nuxt''], Inl (Thrown ''EACCES''))"
  by (simp add: resolverRejects_def emptyProject_def candidatePaths_def candidateBreaks_def
        sidecarReadable_def loadCandidate_def posix_join_def posix_dirname_def Let_def)

text \<open>
  Claim C6, as amended. For a string specifier \<open>s\<close> the candidates are
  \<^verbatim>\<open>join(s, 'nuxt')\<close>, \<^verbatim>\<open>join(s, 'module')\<close> and \<open>s\<close>, handed to \<^verbatim>\<open>resolvePath\<close> in that
  order. The iteration ends at the first candidate that either reaches \<^verbatim>\<open>break\<close>
  (it resolves, its load yields a value, and its sidecar step does not throw) or
  whose \<^verbatim>\<open>resolvePath\<close> rejects; later candidates are never attempted. When no
  candidate does either, all three are attempted.
\<close>

theorem candidates_tried_until_break:
  "candidatePaths E s = [join E s ''nuxt'', join E s ''module'', s]
   \<and> (\<forall>pre p post.
        candidatePaths E s = pre @ p # post
        \<and> (\<forall>q\<in>set pre. \<not> candidateBreaks E (modulesDir nx) q \<and> \<not> resolveThrows E q)
        \<and> (candidateBreaks E (modulesDir nx) p \<or> resolveThrows E p)
        \<longrightarrow> attempted (fst (loadNuxtModuleInstance E (Named s) nx)) = pre @ [p])
   \<and> ((\<forall>q\<in>set (candidatePaths E s).
          \<not> candidateBreaks E (modulesDir nx) q \<and> \<not> resolveThrows E q)
        \<longrightarrow> attempted (fst (loadNuxtModuleInstance E (Named s) nx)) = candidatePaths E s)"
proof (intro conjI allI impI)
  show "candidatePaths E s = [join E s ''nuxt'', join E s ''module'', s]"
    by (simp add: candidatePaths_def)
next
  fix pre p post
  assume h: "candidatePaths E s = pre @ p # post
        \<and> (\<forall>q\<in>set pre. \<not> candidateBreaks E (modulesDir nx) q \<and> \<not> resolveThrows E q)
        \<and> (candidateBreaks E (modulesDir nx) p \<or> resolveThrows E p)"
  then have eq: "candidatePaths E s = pre @ p # post" by simp
  show "attempted (fst (loadNuxtModuleInstance E (Named s) nx)) = pre @ [p]"
    unfolding loadNuxtModuleInstance_attempted attempted_tryCandidates eq
    using h by (intro stops_at_first) auto
next
  assume "\<forall>q\<in>set (candidatePaths E s).
          \<not> candidateBreaks E (modulesDir nx) q \<and> \<not> resolveThrows E q"
  then show "attempted (fst (loadNuxtModuleInstance E (Named s) nx)) = candidatePaths E s"
    unfolding loadNuxtModuleInstance_attempted attempted_tryCandidates
    by (intro never_stops) auto
qed

theorem candidates_tried_until_break_witness:
  "candidatePaths withSidecar ''my-mod'' = [''my-mod/nuxt''] @ ''my-mod/module'' # [''my-mod'']
   \<and> \<not> candidateBreaks withSidecar (modulesDir freshNuxt) ''my-mod/nuxt''
   \<and> \<not> resolveThrows withSidecar ''my-mod/nuxt''
   \<and> candidateBreaks withSidecar (modulesDir freshNuxt) ''my-mod/module''
   \<and> attempted (fst (loadNuxtModuleInstance withSidecar (Named ''my-mod'') freshNuxt))
       = [''my-mod/nuxt'', ''my-mod/module'']
   \<and> \<not> candidateBreaks emptyProject (modulesDir freshNuxt) ''my-mod/nuxt''
   \<and> \<not> candidateBreaks emptyProject (modulesDir freshNuxt) ''my-mod/module''
   \<and> \<not> candidateBreaks emptyProject (modulesDir freshNuxt) ''my-mod''
   \<and> attempted (fst (loadNuxtModuleInstance emptyProject (Named ''my-mod'') freshNuxt))
       = [''my-mod/nuxt'', ''my-mod/module'', ''my-mod'']"
proof -
  have a: "candidatePaths withSidecar ''my-mod''
             = [''my-mod/nuxt''] @ ''my-mod/module'' # [''my-mod'']"
    by (simp add: candidatePaths_def withSidecar_def emptyProject_def posix_join_def)
  have b: "\<not> candidateBreaks withSidecar (modulesDir freshNuxt) ''my-mod/nuxt''
           \<and> \<not> resolveThrows withSidecar ''my-mod/nuxt''"
    by (simp add: candidateBreaks_def resolveThrows_def withSidecar_def
          emptyProject_def loadCandidate_def)
  have c: "candidateBreaks withSidecar (modulesDir freshNuxt) ''my-mod/module''"
    by (simp add: candidateBreaks_def sidecarReadable_def withSidecar_def emptyProject_def
          loadCandidate_def posix_join_def posix_dirname_def Let_def)
  have d: "\<And>q. \<not> candidateBreaks emptyProject (modulesDir freshNuxt) q
                \<and> \<not> resolveThrows emptyProject q"
    by (simp add: candidateBreaks_def resolveThrows_def emptyProject_def loadCandidate_def)
  have e: "candidatePaths emptyProject ''my-mod'' = [''my-mod/nuxt'', ''my-mod/module'', ''my-mod'']"
    by (simp add: candidatePaths_def emptyProject_def posix_join_def)
  from candidates_tried_until_break [of withSidecar "''my-mod''" freshNuxt] a b c
  have "attempted (fst (loadNuxtModuleInstance withSidecar (Named ''my-mod'') freshNuxt))
       = [''my-mod/nuxt''] @ [''my-mod/module'']"
    by (metis empty_iff empty_set set_ConsD)
  then have 1: "attempted (fst (loadNuxtModuleInstance withSidecar (Named ''my-mod'') freshNuxt))
       = [''my-mod/nuxt'', ''my-mod/module'']"
    by (simp only: append.simps)
  from candidates_tried_until_break [of emptyProject "''my-mod''" freshNuxt] d
  have "attempted (fst (loadNuxtModuleInstance emptyProject (Named ''my-mod'') freshNuxt))
       = candidatePaths emptyProject ''my-mod''"
    by blast
  then have 2: "attempted (fst (loadNuxtModuleInstance emptyProject (Named ''my-mod'') freshNuxt))
       = [''my-mod/nuxt'', ''my-mod/module'', ''my-mod'']"
    by (simp only: e)
  from 1 2 a b c d show ?thesis by blast
qed

text \<open>
  Claim C6 as stated ends the iteration at the first candidate whose load succeeds.
  Here the load of the first candidate succeeds, its sidecar does not parse, and the
  two later candidates are attempted all the same.
\<close>

theorem first_successful_load_counterexample:
  "snd (loadCandidate brokenSidecar (modulesDir freshNuxt) ''my-mod/nuxt'') = Inr (MFun timedModule)
   \<and> attempted (fst (loadNuxtModuleInstance brokenSidecar (Named ''my-mod'') freshNuxt))
       = [''my-mod/nuxt'', ''my-mod/module'', ''my-mod'']"
  by (simp add: brokenSidecar_def emptyProject_def candidatePaths_def tryCandidate_def
        loadCandidate_def afterLoop_def posix_join_def posix_dirname_def Let_def)

text \<open>
  Claim C10. For every candidate path that resolves, \<^verbatim>\<open>requireModule\<close> is called not
  only when \<^verbatim>\<open>importModule\<close> rejects but also when it resolves to \<^verbatim>\<open>null\<close> or
  \<^verbatim>\<open>undefined\<close>: in both cases the load expression makes the two calls in order and
  its outcome is that of \<^verbatim>\<open>requireModule\<close>, which decides what the loop does with the
  candidate. When \<^verbatim>\<open>requireModule\<close> throws, the candidate is disqualified: its error
  becomes the retained error, nothing else changes, and the loop goes on with the next
  candidate. When \<^verbatim>\<open>requireModule\<close> returns a value, that value is assigned to
  \<^verbatim>\<open>nuxtModule\<close>, and the candidate ends the loop unless its sidecar step throws.
\<close>

theorem legacy_fallback_on_nullish_import:
  assumes "resolvePath E path = Inr src"
    and "case importModule E src mdirs of Inl e \<Rightarrow> True | Inr v \<Rightarrow> m_nullish v"
  shows "loadCandidate E mdirs src =
           ([EImportModule src, ERequireModule src], requireModule E src mdirs)
         \<and> (\<forall>e. requireModule E src mdirs = Inl e \<longrightarrow>
               tryCandidate E mdirs src st =
                 ([EImportModule src, ERequireModule src], st\<lparr>lastError := Some e\<rparr>, False)
               \<and> tryCandidates E mdirs (path # rest) st =
                   (EResolvePath path # EImportModule src # ERequireModule src
                      # fst (tryCandidates E mdirs rest (st\<lparr>lastError := Some e\<rparr>)),
                    snd (tryCandidates E mdirs rest (st\<lparr>lastError := Some e\<rparr>))))
         \<and> (\<forall>v. requireModule E src mdirs = Inr v \<longrightarrow>
               (\<exists>evs st'. tryCandidate E mdirs src st =
                              (EImportModule src # ERequireModule src # evs, st',
                               sidecarReadable E src)
                          \<and> nuxtModule st' = v)
               \<and> (sidecarReadable E src \<longrightarrow>
                    (\<exists>evs st'. tryCandidates E mdirs (path # rest) st =
                                   (EResolvePath path # EImportModule src # ERequireModule src # evs,
                                    Inr st')
                               \<and> nuxtModule st' = v \<and> lastError st' = lastError st)))"
proof (intro conjI allI impI)
  show l: "loadCandidate E mdirs src =
           ([EImportModule src, ERequireModule src], requireModule E src mdirs)"
    using assms(2) by (auto simp: loadCandidate_def Let_def split: sum.splits)
  {
    fix e
    assume r: "requireModule E src mdirs = Inl e"
    with l have le: "loadCandidate E mdirs src = ([EImportModule src, ERequireModule src], Inl e)"
      by simp
    show t: "tryCandidate E mdirs src st =
               ([EImportModule src, ERequireModule src], st\<lparr>lastError := Some e\<rparr>, False)"
      by (rule tryCandidate_load_failure [OF le])
    show "tryCandidates E mdirs (path # rest) st =
            (EResolvePath path # EImportModule src # ERequireModule src
               # fst (tryCandidates E mdirs rest (st\<lparr>lastError := Some e\<rparr>)),
             snd (tryCandidates E mdirs rest (st\<lparr>lastError := Some e\<rparr>)))"
      using assms(1) t by (simp split: prod.splits)
  }
  {
    fix v
    assume r: "requireModule E src mdirs = Inr v"
    with l have lv: "loadCandidate E mdirs src = ([EImportModule src, ERequireModule src], Inr v)"
      by simp
    have t: "\<exists>evs st'. tryCandidate E mdirs src st =
                              (EImportModule src # ERequireModule src # evs, st',
                               sidecarReadable E src)
                          \<and> nuxtModule st' = v
                          \<and> (sidecarReadable E src \<longrightarrow> lastError st' = lastError st)"
      using lv by (auto simp: tryCandidate_def sidecarReadable_def Let_def split: sum.splits)
    then show "\<exists>evs st'. tryCandidate E mdirs src st =
                              (EImportModule src # ERequireModule src # evs, st',
                               sidecarReadable E src)
                          \<and> nuxtModule st' = v"
      by blast
    {
      assume s: "sidecarReadable E src"
      from t s obtain evs st' where
        "tryCandidate E mdirs src st = (EImportModule src # ERequireModule src # evs, st', True)"
        "nuxtModule st' = v" "lastError st' = lastError st"
        by auto
      then show "\<exists>evs st'. tryCandidates E mdirs (path # rest) st =
                                   (EResolvePath path # EImportModule src # ERequireModule src # evs,
                                    Inr st')
                               \<and> nuxtModule st' = v \<and> lastError st' = lastError st"
        using assms(1) by simp
    }
  }
qed

text \<open>
  Both outcomes at \<^verbatim>\<open>my-mod/nuxt\<close>: an import that resolves to \<^verbatim>\<open>undefined\<close> with a
  legacy load that returns the module, which ends the loop; and an import that
  resolves to \<^verbatim>\<open>null\<close> with a legacy load that throws, after which the loop tries
  the other two candidates.
\<close>

theorem legacy_fallback_on_nullish_import_witness:
  "resolvePath nullishImport ''my-mod/nuxt'' = Inr ''my-mod/nuxt''
   \<and> importModule nullishImport ''my-mod/nuxt'' [] = Inr (MVal JUndefined)
   \<and> requireModule nullishImport ''my-mod/nuxt'' [] = Inr (MFun timedModule)
   \<and> sidecarReadable nullishImport ''my-mod/nuxt''
   \<and> loadCandidate nullishImport [] ''my-mod/nuxt'' =
       ([EImportModule ''my-mod/nuxt'', ERequireModule ''my-mod/nuxt''], Inr (MFun timedModule))
   \<and> tryCandidates nullishImport [] [''my-mod/nuxt'', ''my-mod/module'', ''my-mod'']
        \<lparr>nuxtModule = MVal (JStr ''my-mod''), buildTimeModuleMeta = JObj [], lastError = None\<rparr>
       = ([EResolvePath ''my-mod/nuxt'', EImportModule ''my-mod/nuxt'',
           ERequireModule ''my-mod/nuxt'', EExistsSync ''my-mod/module.json''],
          Inr \<lparr>nuxtModule = MFun timedModule, buildTimeModuleMeta = JObj [], lastError = None\<rparr>)
   \<and> resolvePath nullImportNoLegacy ''my-mod/nuxt'' = Inr ''my-mod/nuxt''
   \<and> importModule nullImportNoLegacy ''my-mod/nuxt'' [] = Inr (MVal JNull)
   \<and> requireModule nullImportNoLegacy ''my-mod/nuxt'' [] = Inl (Thrown ''MODULE_NOT_FOUND'')
   \<and> tryCandidate nullImportNoLegacy [] ''my-mod/nuxt''
        \<lparr>nuxtModule = MVal (JStr ''my-mod''), buildTimeModuleMeta = JObj [], lastError = None\<rparr>
       = ([EImportModule ''my-mod/nuxt'', ERequireModule ''my-mod/nuxt''],
          \<lparr>nuxtModule = MVal (JStr ''my-mod''), buildTimeModuleMeta = JObj [],
            lastError = Some (Thrown ''MODULE_NOT_FOUND'')\<rparr>,
          False)
   \<and> attempted (fst (tryCandidates nullImportNoLegacy [] [''my-mod/nuxt'', ''my-mod/module'', ''my-mod'']
        \<lparr>nuxtModule = MVal (JStr ''my-mod''), buildTimeModuleMeta = JObj [], lastError = None\<rparr>))
       = [''my-mod/nuxt'', ''my-mod/module'', ''my-mod'']"
proof -
  let ?st = "\<lparr>nuxtModule = MVal (JStr ''my-mod''), buildTimeModuleMeta = JObj [], lastError = None\<rparr>"
  have r1: "resolvePath nullishImport ''my-mod/nuxt'' = Inr ''my-mod/nuxt''"
    by (simp add: nullishImport_def emptyProject_def)
  have i1: "importModule nullishImport ''my-mod/nuxt'' [] = Inr (MVal JUndefined)"
    by (simp add: nullishImport_def emptyProject_def)
  then have h1: "case importModule nullishImport ''my-mod/nuxt'' [] of
                   Inl e \<Rightarrow> True | Inr v \<Rightarrow> m_nullish v"
    by simp
  have q1: "requireModule nullishImport ''my-mod/nuxt'' [] = Inr (MFun timedModule)"
    by (simp add: nullishImport_def emptyProject_def)
  have s1: "sidecarReadable nullishImport ''my-mod/nuxt''"
    by (simp add: sidecarReadable_def nullishImport_def emptyProject_def)
  have t1: "tryCandidates nullishImport [] [''my-mod/nuxt'', ''my-mod/module'', ''my-mod''] ?st
       = ([EResolvePath ''my-mod/nuxt'', EImportModule ''my-mod/nuxt'',
           ERequireModule ''my-mod/nuxt'', EExistsSync ''my-mod/module.json''],
          Inr \<lparr>nuxtModule = MFun timedModule, buildTimeModuleMeta = JObj [], lastError = None\<rparr>)"
    by (simp add: nullishImport_def emptyProject_def tryCandidate_def loadCandidate_def
          posix_join_def posix_dirname_def Let_def)
  have r2: "resolvePath nullImportNoLegacy ''my-mod/nuxt'' = Inr ''my-mod/nuxt''"
    by (simp add: nullImportNoLegacy_def emptyProject_def)
  have i2: "importModule nullImportNoLegacy ''my-mod/nuxt'' [] = Inr (MVal JNull)"
    by (simp add: nullImportNoLegacy_def emptyProject_def)
  then have h2: "case importModule nullImportNoLegacy ''my-mod/nuxt'' [] of
                   Inl e \<Rightarrow> True | Inr v \<Rightarrow> m_nullish v"
    by simp
  have q2: "requireModule nullImportNoLegacy ''my-mod/nuxt'' [] = Inl (Thrown ''MODULE_NOT_FOUND'')"
    by (simp add: nullImportNoLegacy_def emptyProject_def)
  have a2: "attempted (fst (tryCandidates nullImportNoLegacy [] [''my-mod/module'', ''my-mod'']
              (?st\<lparr>lastError := Some (Thrown ''MODULE_NOT_FOUND'')\<rparr>)))
            = [''my-mod/module'', ''my-mod'']"
    by (simp add: nullImportNoLegacy_def emptyProject_def tryCandidate_def loadCandidate_def)
  from legacy_fallback_on_nullish_import [OF r1 h1, of ?st "[''my-mod/module'', ''my-mod'']"] q1
  have l1: "loadCandidate nullishImport [] ''my-mod/nuxt'' =
       ([EImportModule ''my-mod/nuxt'', ERequireModule ''my-mod/nuxt''], Inr (MFun timedModule))"
    by simp
  from legacy_fallback_on_nullish_import [OF r2 h2, of ?st "[''my-mod/module'', ''my-mod'']"] q2
  have c2: "tryCandidate nullImportNoLegacy [] ''my-mod/nuxt'' ?st =
              ([EImportModule ''my-mod/nuxt'', ERequireModule ''my-mod/nuxt''],
               ?st\<lparr>lastError := Some (Thrown ''MODULE_NOT_FOUND'')\<rparr>, False)"
    and d2: "tryCandidates nullImportNoLegacy [] [''my-mod/nuxt'', ''my-mod/module'', ''my-mod''] ?st =
              (EResolvePath ''my-mod/nuxt'' # EImportModule ''my-mod/nuxt''
                 # ERequireModule ''my-mod/nuxt''
                 # fst (tryCandidates nullImportNoLegacy [] [''my-mod/module'', ''my-mod'']
                         (?st\<lparr>lastError := Some (Thrown ''MODULE_NOT_FOUND'')\<rparr>)),
               snd (tryCandidates nullImportNoLegacy [] [''my-mod/module'', ''my-mod'']
                         (?st\<lparr>lastError := Some (Thrown ''MODULE_NOT_FOUND'')\<rparr>)))"
    by blast+
  have e2: "attempted (fst (tryCandidates nullImportNoLegacy [] [''my-mod/nuxt'', ''my-mod/module'', ''my-mod''] ?st))
            = [''my-mod/nuxt'', ''my-mod/module'', ''my-mod'']"
    unfolding d2 using a2 by simp
  have c2': "tryCandidate nullImportNoLegacy [] ''my-mod/nuxt'' ?st =
              ([EImportModule ''my-mod/nuxt'', ERequireModule ''my-mod/nuxt''],
               \<lparr>nuxtModule = MVal (JStr ''my-mod''), buildTimeModuleMeta = JObj [],
                 lastError = Some (Thrown ''MODULE_NOT_FOUND'')\<rparr>, False)"
    using c2 by simp
  from r1 i1 q1 s1 l1 t1 r2 i2 q2 c2' e2 show ?thesis by blast
qed

section \<open>Installing: the claims\<close>

text \<open>
  Claim C4. Whenever the loaded module's setup returns exactly \<^verbatim>\<open>false\<close>,
  \<open>installModule\<close> returns normally and adds nothing of its own to the build
  context: the instance it returns is the one the setup call left, so no record is
  appended to \<^verbatim>\<open>_installedModules\<close>, and nothing is pushed to \<^verbatim>\<open>build.transpile\<close> or
  to \<^verbatim>\<open>modulesDir\<close>.
\<close>

theorem false_result_aborts_install:
  assumes "snd (loadNuxtModuleInstance E moduleToInstall nx) = Inr (f, btm)"
    and "call f (if isNuxt2 E then ModuleContainer else NoReceiver) inlineOptions nx
           = (nx1, Inr (JBool False))"
  shows "installModule E moduleToInstall inlineOptions nx = (nx1, Inr ())
         \<and> installedModules (fst (installModule E moduleToInstall inlineOptions nx))
             = installedModules nx1
         \<and> transpile (fst (installModule E moduleToInstall inlineOptions nx)) = transpile nx1
         \<and> modulesDir (fst (installModule E moduleToInstall inlineOptions nx)) = modulesDir nx1"
proof -
  have "installModule E moduleToInstall inlineOptions nx = (nx1, Inr ())"
    using assms by (simp add: installModule_def coalesce_def)
  then show ?thesis by simp
qed

theorem false_result_aborts_install_witness:
  "snd (loadNuxtModuleInstance abortingPackage (Named ''my-mod'') freshNuxt)
     = Inr (abortingModule, JObj [])
   \<and> call abortingModule NoReceiver JUndefined freshNuxt = (freshNuxt, Inr (JBool False))
   \<and> installModule abortingPackage (Named ''my-mod'') JUndefined freshNuxt = (freshNuxt, Inr ())"
proof -
  have l: "snd (loadNuxtModuleInstance abortingPackage (Named ''my-mod'') freshNuxt)
             = Inr (abortingModule, JObj [])"
    by (simp add: abortingPackage_def emptyProject_def candidatePaths_def tryCandidate_def
          loadCandidate_def afterLoop_def posix_join_def posix_dirname_def)
  have c: "call abortingModule (if isNuxt2 abortingPackage then ModuleContainer else NoReceiver)
             JUndefined freshNuxt = (freshNuxt, Inr (JBool False))"
    by (simp add: abortingModule_def abortingPackage_def emptyProject_def)
  from false_result_aborts_install [OF l c] l c show ?thesis
    by (simp add: abortingPackage_def emptyProject_def)
qed

text \<open>
  Claim C7. A reference that is already a function is returned by
  \<open>loadNuxtModuleInstance\<close> as it is, with the empty object as build-time metadata
  and without a single call to the resolver, the loaders or the file system. When
  the installation goes on to write a ledger entry, its \<open>meta\<close> is the module's own
  \<^verbatim>\<open>getMeta()\<close> output merged over the empty object, which is that output's own
  entries, and its \<open>entryPath\<close> is \<^verbatim>\<open>undefined\<close>.
\<close>

theorem callable_reference_needs_no_loading:
  "loadNuxtModuleInstance E (Callable f) nx = ([], Inr (f, JObj []))
   \<and> (\<forall>nx1 r gm.
        call f (if isNuxt2 E then ModuleContainer else NoReceiver) inlineOptions nx = (nx1, Inr r)
        \<and> coalesce r (JObj []) \<noteq> JBool False \<and> callGetMeta f = Inr gm
        \<longrightarrow> (\<exists>t. installModule E (Callable f) inlineOptions nx =
                   (nx1\<lparr>installedModules :=
                          Some (ledger nx1 @
                                [\<lparr>meta = defu gm (JObj []), timings = t, entryPath = None\<rparr>])\<rparr>,
                    Inr ()))
            \<and> defu gm (JObj []) = JObj (obj_entries gm))"
proof (intro conjI allI impI)
  show "loadNuxtModuleInstance E (Callable f) nx = ([], Inr (f, JObj []))" by simp
next
  fix nx1 r gm
  assume h: "call f (if isNuxt2 E then ModuleContainer else NoReceiver) inlineOptions nx = (nx1, Inr r)
        \<and> coalesce r (JObj []) \<noteq> JBool False \<and> callGetMeta f = Inr gm"
  obtain t where t: "get_prop (coalesce r (JObj [])) ''timings'' = Inr t"
    using get_prop_total [OF coalesce_not_nullish] by blast
  have "installModule E (Callable f) inlineOptions nx =
                   (nx1\<lparr>installedModules :=
                          Some (ledger nx1 @
                                [\<lparr>meta = defu gm (JObj []), timings = t, entryPath = None\<rparr>])\<rparr>,
                    Inr ())"
    using h t by (simp add: installModule_def recordInstall_def Let_def)
  then show "\<exists>t. installModule E (Callable f) inlineOptions nx =
                   (nx1\<lparr>installedModules :=
                          Some (ledger nx1 @
                                [\<lparr>meta = defu gm (JObj []), timings = t, entryPath = None\<rparr>])\<rparr>,
                    Inr ())" by blast
next
  fix gm show "defu gm (JObj []) = JObj (obj_entries gm)" by (rule defu_empty_defaults)
qed

theorem callable_reference_needs_no_loading_witness:
  "loadNuxtModuleInstance emptyProject (Callable metaModule) freshNuxt
     = ([], Inr (metaModule, JObj []))
   \<and> installModule emptyProject (Callable metaModule) JNull freshNuxt =
       (freshNuxt\<lparr>installedModules :=
                   Some [\<lparr>meta = JObj [(''b'', JNum 3)], timings = JUndefined, entryPath = None\<rparr>]\<rparr>,
        Inr ())"
proof -
  have c: "call metaModule (if isNuxt2 emptyProject then ModuleContainer else NoReceiver)
             JNull freshNuxt = (freshNuxt, Inr JUndefined)
           \<and> coalesce JUndefined (JObj []) \<noteq> JBool False
           \<and> callGetMeta metaModule = Inr (JObj [(''b'', JNum 3)])"
    by (simp add: metaModule_def coalesce_def callGetMeta_def)
  from callable_reference_needs_no_loading [of emptyProject metaModule freshNuxt JNull] c
  obtain t where
    l: "loadNuxtModuleInstance emptyProject (Callable metaModule) freshNuxt
          = ([], Inr (metaModule, JObj []))"
    and i: "installModule emptyProject (Callable metaModule) JNull freshNuxt =
       (freshNuxt\<lparr>installedModules :=
          Some (ledger freshNuxt @
                [\<lparr>meta = defu (JObj [(''b'', JNum 3)]) (JObj []), timings = t, entryPath = None\<rparr>])\<rparr>,
        Inr ())"
    by blast
  have "get_prop (coalesce JUndefined (JObj [])) ''timings'' = Inr JUndefined"
    by (simp add: get_prop_def coalesce_def)
  have t: "t = JUndefined"
    using i by (simp add: installModule_def recordInstall_def metaModule_def coalesce_def
                  get_prop_def callGetMeta_def Let_def emptyProject_def freshNuxt_def)
  show ?thesis using l i t
    by (simp add: ledger_def freshNuxt_def defu_def obj_entries_def)
qed

text \<open>
  Claim C5. Every installation that writes a ledger entry appends one record whose
  \<open>meta\<close> is \<^verbatim>\<open>defu(await nuxtModule.getMeta?.(), buildTimeModuleMeta)\<close>: the module's
  own \<^verbatim>\<open>getMeta()\<close> output first, the sidecar metadata second. Under the merge as the
  specification describes it, a key of the runtime metadata keeps the runtime value
  and any other key has the build-time value. The example of the specification,
  build-time \<^verbatim>\<open>{a:1,b:2}\<close> and runtime \<^verbatim>\<open>{b:3}\<close> giving \<^verbatim>\<open>{a:1,b:3}\<close>, is the witness.
\<close>

theorem ledger_meta_is_runtime_over_buildtime:
  assumes "snd (loadNuxtModuleInstance E moduleToInstall nx) = Inr (f, btm)"
    and "call f (if isNuxt2 E then ModuleContainer else NoReceiver) inlineOptions nx = (nx1, Inr r)"
    and "coalesce r (JObj []) \<noteq> JBool False"
    and "installModule E moduleToInstall inlineOptions nx = (nx', Inr ())"
  shows "\<exists>gm t ep. callGetMeta f = Inr gm
           \<and> installedModules nx' =
               Some (ledger nx1 @ [\<lparr>meta = defu gm btm, timings = t, entryPath = ep\<rparr>])
           \<and> (\<forall>k. map_of (obj_entries (defu gm btm)) k =
                    (case map_of (obj_entries gm) k of
                       Some v \<Rightarrow> Some v
                     | None \<Rightarrow> map_of (obj_entries btm) k))"
proof -
  have "recordInstall E moduleToInstall f btm (localLayerModuleDirs E (layers nx))
          (coalesce r (JObj [])) nx1 = (nx', Inr ())"
    using assms by (simp add: installModule_def Let_def)
  from recordInstall_ok [OF this] show ?thesis
    using defu_lookup by blast
qed

theorem ledger_meta_is_runtime_over_buildtime_witness:
  "snd (loadNuxtModuleInstance withSidecar (Named ''my-mod'') freshNuxt)
     = Inr (metaModule, JObj [(''a'', JNum 1), (''b'', JNum 2)])
   \<and> callGetMeta metaModule = Inr (JObj [(''b'', JNum 3)])
   \<and> snd (installModule withSidecar (Named ''my-mod'') JNull freshNuxt) = Inr ()
   \<and> map meta (ledger (fst (installModule withSidecar (Named ''my-mod'') JNull freshNuxt)))
       = [JObj [(''a'', JNum 1), (''b'', JNum 3)]]"
proof -
  have l: "snd (loadNuxtModuleInstance withSidecar (Named ''my-mod'') freshNuxt)
             = Inr (metaModule, JObj [(''a'', JNum 1), (''b'', JNum 2)])"
    by (simp add: withSidecar_def emptyProject_def candidatePaths_def tryCandidate_def
          loadCandidate_def afterLoop_def posix_join_def posix_dirname_def Let_def)
  have c: "call metaModule (if isNuxt2 withSidecar then ModuleContainer else NoReceiver)
             JNull freshNuxt = (freshNuxt, Inr JUndefined)"
    by (simp add: metaModule_def)
  have n: "coalesce JUndefined (JObj []) \<noteq> JBool False"
    by (simp add: coalesce_def)
  have g: "callGetMeta metaModule = Inr (JObj [(''b'', JNum 3)])"
    by (simp add: metaModule_def callGetMeta_def)
  have e: "entryPathOf withSidecar (Named ''my-mod'') = Inr (Some ''my-mod'')"
    by (simp add: withSidecar_def emptyProject_def)
  have p: "get_prop (coalesce JUndefined (JObj [])) ''timings'' = Inr JUndefined"
    by (simp add: get_prop_def coalesce_def)
  obtain nx' where i: "installModule withSidecar (Named ''my-mod'') JNull freshNuxt = (nx', Inr ())"
    using l c n recordInstall_result [OF g p e]
    by (simp add: installModule_def)
  from ledger_meta_is_runtime_over_buildtime [OF l c n i] g
  obtain t ep where
    "installedModules nx' =
       Some (ledger freshNuxt @
             [\<lparr>meta = defu (JObj [(''b'', JNum 3)]) (JObj [(''a'', JNum 1), (''b'', JNum 2)]),
               timings = t, entryPath = ep\<rparr>])"
    by auto
  then show ?thesis using l g i
    by (simp add: ledger_def freshNuxt_def defu_def obj_entries_def)
qed

end
